theory Spec2Isabelle
  imports Complex_Main "HOL-Library.Product_Lexorder" "HOL-Library.Sublist"
begin

section \<open>Calendar dates\<close>

text \<open>
  The client keeps stay dates as ISO strings \<^verbatim>\<open>yyyy-MM-dd\<close> and compares them with the
  string operators \<^verbatim>\<open><\<close>, \<^verbatim>\<open><=\<close>. Such a string is represented by its three numeric
  fields (year, month, day); on fixed-width, zero-padded fields the string order is the
  lexicographic order of the triples, which is the order of products here.
  A JavaScript \<^verbatim>\<open>Date\<close> at local midnight (the result of \<^verbatim>\<open>parseISO\<close> on such a
  string) is represented by the same triple, so \<^verbatim>\<open>parseISO\<close> and
  \<^verbatim>\<open>format(d, 'yyyy-MM-dd')\<close> are the identity.
\<close>

type_synonym isodate = "int \<times> int \<times> int"

definition isLeapYear :: "int \<Rightarrow> bool" where
  "isLeapYear y =
     (if y mod 400 = 0 then True else if y mod 100 = 0 then False else y mod 4 = 0)"

text \<open>date-fns \<^verbatim>\<open>getDaysInMonth\<close>, on a year and a month number 1..12.\<close>

definition getDaysInMonth :: "int \<Rightarrow> int \<Rightarrow> int" where
  "getDaysInMonth y m =
     (if m = 2 then (if isLeapYear y then 29 else 28)
      else if m = 4 then 30 else if m = 6 then 30 else if m = 9 then 30
      else if m = 11 then 30 else 31)"

definition validDate :: "isodate \<Rightarrow> bool" where
  "validDate d =
     (case d of (y, m, dd) \<Rightarrow> 1 \<le> m \<and> m \<le> 12 \<and> 1 \<le> dd \<and> dd \<le> getDaysInMonth y m)"

definition daysBeforeYear :: "int \<Rightarrow> int" where
  "daysBeforeYear y = 365 * (y - 1) + (y - 1) div 4 - (y - 1) div 100 + (y - 1) div 400"

definition daysBeforeMonth :: "int \<Rightarrow> int \<Rightarrow> int" where
  "daysBeforeMonth y m = sum_list (map (getDaysInMonth y) [1..m - 1])"

text \<open>The day number of a calendar date (days since a fixed origin).\<close>

definition toDays :: "isodate \<Rightarrow> int" where
  "toDays d = (case d of (y, m, dd) \<Rightarrow> daysBeforeYear y + daysBeforeMonth y m + dd)"

text \<open>
  date-fns \<^verbatim>\<open>differenceInDays(dateLeft, dateRight)\<close>: the number of full days between
  two dates; for two local midnights that is the difference of their day numbers.
\<close>

definition differenceInDays :: "isodate \<Rightarrow> isodate \<Rightarrow> int" where
  "differenceInDays dateLeft dateRight = toDays dateLeft - toDays dateRight"

text \<open>date-fns \<^verbatim>\<open>addDays(d, 1)\<close>: the next calendar day.\<close>

definition addDays1 :: "isodate \<Rightarrow> isodate" where
  "addDays1 d =
     (case d of (y, m, dd) \<Rightarrow>
        if dd < getDaysInMonth y m then (y, m, dd + 1)
        else if m < 12 then (y, m + 1, 1)
        else (y + 1, 1, 1))"

text \<open>The calendar days from \<open>c\<close> to \<open>e\<close>, both included.\<close>

definition window :: "isodate \<Rightarrow> isodate \<Rightarrow> isodate set" where
  "window c e = {d. validDate d \<and> c \<le> d \<and> d \<le> e}"

text \<open>
  A month bucket is the \<^verbatim>\<open>Date\<close> of the first day of a month, kept as (year, month).
  \<^verbatim>\<open>format(startOfMonth(month), 'yyyy-MM-dd')\<close> and
  \<^verbatim>\<open>format(endOfMonth(month), 'yyyy-MM-dd')\<close>:
\<close>

type_synonym month = "int \<times> int"

definition startOfMonth :: "month \<Rightarrow> isodate" where
  "startOfMonth mo = (case mo of (y, m) \<Rightarrow> (y, m, 1))"

definition endOfMonth :: "month \<Rightarrow> isodate" where
  "endOfMonth mo = (case mo of (y, m) \<Rightarrow> (y, m, getDaysInMonth y m))"

datatype error = RangeError | Error string

text \<open>
  date-fns \<^verbatim>\<open>eachMonthOfInterval({start, end})\<close>: the first days of the months from the
  month of \<^verbatim>\<open>start\<close> to the month of \<^verbatim>\<open>end\<close>. The library is not part of the
  repository and its major versions differ on an interval whose start is after its end:
  version 2 throws \<^verbatim>\<open>RangeError('Invalid interval')\<close>, versions 3 and 4 return the months
  in descending order. Both behaviours are modelled, selected by a parameter.
\<close>

datatype DateFns = DateFnsV2 | DateFnsV3

definition monthIndex :: "isodate \<Rightarrow> int" where
  "monthIndex d = (case d of (y, m, dd) \<Rightarrow> y * 12 + (m - 1))"

definition monthOfIndex :: "int \<Rightarrow> month" where
  "monthOfIndex i = (i div 12, i mod 12 + 1)"

definition eachMonthOfInterval :: "DateFns \<Rightarrow> isodate \<Rightarrow> isodate \<Rightarrow> error + month list" where
  "eachMonthOfInterval lib start end' =
     (if start > end' then
        (case lib of
           DateFnsV2 \<Rightarrow> Inl RangeError
         | DateFnsV3 \<Rightarrow> Inr (rev (map monthOfIndex [monthIndex end'..monthIndex start])))
      else Inr (map monthOfIndex [monthIndex start..monthIndex end']))"


section \<open>Report shapes of the server\<close>

text \<open>
  The objects returned by \<^verbatim>\<open>getOccupancyReport\<close> and \<^verbatim>\<open>getRevenueReport\<close>. The label
  \<^verbatim>\<open>`${year}-${String(month).padStart(2, '0')}`\<close> is kept as the pair (year, month).
\<close>

record OccupancyReport =
  room :: string
  month :: "int \<times> int"
  totalNights :: int
  occupiedNights :: int
  occupancyRate :: rat

record RevenueReport =
  year :: int
  month :: "int option"
  totalRevenue :: rat
  totalDeposits :: rat
  totalOutstanding :: rat
  bookingCount :: nat
  averageBookingValue :: rat


section \<open>Bookings\<close>

text \<open>
  \<^verbatim>\<open>interface Booking\<close> (src/db.ts) and the rows of the server's booking table have the
  same fields; they differ in how dates and the status are represented, which the type
  parameters record. On the client \<^verbatim>\<open>checkIn\<close> and \<^verbatim>\<open>checkOut\<close> are ISO date strings,
  \<^verbatim>\<open>createdAt\<close> is an ISO date-time string (its date part, then what follows the
  \<^verbatim>\<open>T\<close>) and \<^verbatim>\<open>status\<close> is a string. JavaScript numbers are modelled by exact
  numbers (\<^typ>\<open>int\<close> for counts, \<^typ>\<open>rat\<close> for amounts).
\<close>

record ('date, 'created, 'status) Booking =
  bookingId :: string
  tenantId :: string
  guestName :: string
  room :: string
  checkIn :: 'date
  checkOut :: 'date
  nights :: int
  totalPrice :: rat
  deposit :: rat
  remaining :: rat
  createdAt :: 'created
  status :: 'status

type_synonym ClientBooking = "(isodate, isodate \<times> string, string) Booking"

text \<open>\<^verbatim>\<open>b.createdAt.split('T')[0]\<close>\<close>

definition createdDate :: "isodate \<times> string \<Rightarrow> isodate" where
  "createdDate c = fst c"

text \<open>
  \<^verbatim>\<open>interface RoomConfig { id: string; name: string }\<close>; the field names carry a prime
  here, \<open>id\<close> being the identity function of HOL.
\<close>

record RoomConfig =
  id' :: string
  name' :: string

definition DEFAULT_ROOMS :: "RoomConfig list" where
  "DEFAULT_ROOMS =
     [\<lparr>id' = ''A1'', name' = ''A1''\<rparr>, \<lparr>id' = ''A2'', name' = ''A2''\<rparr>,
      \<lparr>id' = ''A3'', name' = ''A3''\<rparr>, \<lparr>id' = ''A4'', name' = ''A4''\<rparr>,
      \<lparr>id' = ''A5'', name' = ''A5''\<rparr>]"

text \<open>\<^verbatim>\<open>const rooms = session.tenant.rooms?.length ? session.tenant.rooms : DEFAULT_ROOMS\<close>\<close>

definition rooms :: "RoomConfig list \<Rightarrow> RoomConfig list" where
  "rooms tenantRooms = (if length tenantRooms \<noteq> 0 then tenantRooms else DEFAULT_ROOMS)"


section \<open>The client report builder (\<^verbatim>\<open>reportData\<close> in src/App.tsx)\<close>

datatype ReportType = stay | created

definition filtered ::
  "ClientBooking list \<Rightarrow> isodate \<Rightarrow> isodate \<Rightarrow> string \<Rightarrow> ReportType \<Rightarrow> ClientBooking list" where
  "filtered bookings reportStartDate reportEndDate reportRoomFilter reportType =
     filter (\<lambda>b.
       if status b = ''CANCELED'' then False
       else
         let dateToCompare = (if reportType = stay then checkIn b else createdDate (createdAt b));
             inRange = (dateToCompare \<ge> reportStartDate \<and> dateToCompare \<le> reportEndDate);
             roomMatch = (reportRoomFilter = ''ALL'' \<or> room b = reportRoomFilter)
         in inRange \<and> roomMatch) bookings"

text \<open>\<^verbatim>\<open>roomBookings.some((b) => dStr >= b.checkIn && dStr < b.checkOut)\<close>\<close>

definition isOccupied :: "ClientBooking list \<Rightarrow> isodate \<Rightarrow> bool" where
  "isOccupied roomBookings dStr =
     list_ex (\<lambda>b. dStr \<ge> checkIn b \<and> dStr < checkOut b) roomBookings"

text \<open>
  The loop \<^verbatim>\<open>while (current <= end) { ...; current = addDays(current, 1) }\<close> with its
  counter \<^verbatim>\<open>occupiedDays\<close>.
\<close>

function occupiedDaysLoop :: "ClientBooking list \<Rightarrow> isodate \<Rightarrow> isodate \<Rightarrow> int \<Rightarrow> int" where
  "occupiedDaysLoop roomBookings current end' occupiedDays =
     (if current \<le> end' then
        occupiedDaysLoop roomBookings (addDays1 current) end'
          (if isOccupied roomBookings current then occupiedDays + 1 else occupiedDays)
      else occupiedDays)"
  by pat_completeness auto

lemma getDaysInMonth_le_31: "getDaysInMonth y m \<le> 31"
  by (simp add: getDaysInMonth_def)

termination occupiedDaysLoop
proof (relation "measures [\<lambda>(bs, c, e, n). nat (fst e + 1 - fst c),
                           \<lambda>(bs, c, e, n). nat (12 - fst (snd c)),
                           \<lambda>(bs, c, e, n). nat (31 - snd (snd c))]", goal_cases)
  case 1
  show ?case by simp
next
  case (2 roomBookings current end' occupiedDays)
  obtain y m d where c: "current = (y, m, d)" by (cases current) auto
  obtain ye me de where e: "end' = (ye, me, de)" by (cases end') auto
  from 2 c e have yle: "y \<le> ye" by (auto simp: less_eq_prod_def)
  have "getDaysInMonth y m \<le> 31" by (rule getDaysInMonth_le_31)
  with yle show ?case
    by (auto simp: c e addDays1_def)
qed

declare occupiedDaysLoop.simps [simp del]


record RoomStat =
  roomId :: string
  totalNights :: int
  totalRevenue :: rat
  occupancyRate :: rat

text \<open>The body of \<^verbatim>\<open>rooms.map((room) => ...)\<close> for one room.\<close>

definition roomStat ::
  "ClientBooking list \<Rightarrow> isodate \<Rightarrow> isodate \<Rightarrow> RoomConfig \<Rightarrow> RoomStat" where
  "roomStat filteredBookings reportStartDate reportEndDate roomCfg =
     (let roomBookings = filter (\<lambda>b. room b = id' roomCfg) filteredBookings;
          totalNights = fold (\<lambda>b sum. sum + nights b) roomBookings 0;
          totalRevenue = fold (\<lambda>b sum. sum + totalPrice b) roomBookings 0;
          start = reportStartDate;
          end' = reportEndDate;
          daysInReport = differenceInDays end' start + 1;
          occupiedDays =
            (if daysInReport > 0 then occupiedDaysLoop roomBookings start end' 0 else 0);
          occupancyRate =
            (if daysInReport > 0 then (of_int occupiedDays / of_int daysInReport) * 100 else 0)
      in \<lparr>roomId = id' roomCfg, totalNights = totalNights,
          totalRevenue = totalRevenue, occupancyRate = occupancyRate\<rparr>)"

record MonthStat =
  month :: month
  revenue :: rat
  fillRate :: rat

text \<open>
  The body of \<^verbatim>\<open>months.map((month) => ...)\<close> for one month. The label
  \<^verbatim>\<open>formatTz(month, 'MMM yyyy', tz, lang)\<close> is kept as the month itself.
\<close>

definition monthBookings :: "ClientBooking list \<Rightarrow> string \<Rightarrow> month \<Rightarrow> ClientBooking list" where
  "monthBookings bookings reportRoomFilter mo =
     (let monthEnd = endOfMonth mo; realStart = startOfMonth mo
      in filter (\<lambda>b.
           status b \<noteq> ''CANCELED'' \<and> checkIn b \<le> monthEnd \<and> checkOut b > realStart \<and>
           (reportRoomFilter = ''ALL'' \<or> room b = reportRoomFilter)) bookings)"

definition monthRevenue :: "ClientBooking list \<Rightarrow> month \<Rightarrow> rat" where
  "monthRevenue monthBkgs mo =
     (let monthEnd = endOfMonth mo; realStart = startOfMonth mo
      in fold (\<lambda>b sum.
           if checkIn b \<ge> realStart \<and> checkIn b \<le> monthEnd then sum + totalPrice b else sum)
         monthBkgs 0)"

text \<open>What one booking adds to \<^verbatim>\<open>occupancy\<close>: \<^verbatim>\<open>Math.max(0, days)\<close>.\<close>

definition occupancyDays :: "month \<Rightarrow> ClientBooking \<Rightarrow> int" where
  "occupancyDays mo b =
     (let monthEnd = endOfMonth mo; realStart = startOfMonth mo;
          s = (if checkIn b < realStart then realStart else checkIn b);
          e = (if checkOut b > monthEnd then monthEnd else checkOut b);
          days = differenceInDays e s
      in max 0 days)"

definition monthOccupancy :: "ClientBooking list \<Rightarrow> month \<Rightarrow> int" where
  "monthOccupancy monthBkgs mo = fold (\<lambda>b sum. sum + occupancyDays mo b) monthBkgs 0"

definition monthStat ::
  "ClientBooking list \<Rightarrow> string \<Rightarrow> RoomConfig list \<Rightarrow> month \<Rightarrow> MonthStat" where
  "monthStat bookings reportRoomFilter tenantRooms mo =
     (let monthEnd = endOfMonth mo; realStart = startOfMonth mo;
          monthBkgs = monthBookings bookings reportRoomFilter mo;
          revenue = monthRevenue monthBkgs mo;
          occupancy = monthOccupancy monthBkgs mo;
          totalPossibleNights = differenceInDays monthEnd realStart + 1;
          totalRooms = (if reportRoomFilter = ''ALL'' then int (length (rooms tenantRooms)) else 1);
          fillRate =
            (if totalPossibleNights > 0
             then (of_int occupancy / of_int (totalPossibleNights * totalRooms)) * 100 else 0)
      in \<lparr>month = mo, revenue = revenue, fillRate = fillRate\<rparr>)"

record ReportData =
  roomStats :: "RoomStat list"
  totalRevenue :: rat
  totalNights :: int
  bookingCount :: nat
  monthlyStats :: "MonthStat list"

definition reportData ::
  "DateFns \<Rightarrow> ClientBooking list \<Rightarrow> isodate \<Rightarrow> isodate \<Rightarrow> string \<Rightarrow> ReportType \<Rightarrow>
     RoomConfig list \<Rightarrow> error + ReportData" where
  "reportData lib bookings reportStartDate reportEndDate reportRoomFilter reportType tenantRooms =
     (let flt = filtered bookings reportStartDate reportEndDate reportRoomFilter reportType;
          roomStats = map (roomStat flt reportStartDate reportEndDate) (rooms tenantRooms);
          totalRevenue = fold (\<lambda>b sum. sum + totalPrice b) flt 0;
          totalNights = fold (\<lambda>b sum. sum + nights b) flt 0
      in case eachMonthOfInterval lib reportStartDate reportEndDate of
           Inl err \<Rightarrow> Inl err
         | Inr months \<Rightarrow>
             Inr \<lparr>roomStats = roomStats, totalRevenue = totalRevenue, totalNights = totalNights,
                  bookingCount = length flt,
                  monthlyStats = map (monthStat bookings reportRoomFilter tenantRooms) months\<rparr>)"


subsection \<open>Stays that do not overlap\<close>

text \<open>
  The invariant of the data model, which the system does not enforce: of the bookings of
  one room no two claim the same day, that is, of any two one checks out on or before the
  day the other checks in.
\<close>

fun noDoubleBooking :: "ClientBooking list \<Rightarrow> bool" where
  "noDoubleBooking [] = True"
| "noDoubleBooking (b # bs) =
     ((\<forall>c \<in> set bs. room c = room b \<longrightarrow> checkOut b \<le> checkIn c \<or> checkOut c \<le> checkIn b) \<and>
      noDoubleBooking bs)"

text \<open>
  The nights that \<^const>\<open>occupancyDays\<close> counts for a booking in a month, as day numbers:
  from the clamped start to the day before the clamped end.
\<close>

definition clampedNights :: "month \<Rightarrow> ClientBooking \<Rightarrow> int set" where
  "clampedNights mo b =
     {toDays (if checkIn b < startOfMonth mo then startOfMonth mo else checkIn b) ..<
      toDays (if checkOut b > endOfMonth mo then endOfMonth mo else checkOut b)}"


section \<open>The server resolvers\<close>

text \<open>
  On the server \<^verbatim>\<open>checkIn\<close>, \<^verbatim>\<open>checkOut\<close> and \<^verbatim>\<open>createdAt\<close> are \<^verbatim>\<open>Date\<close> values:
  milliseconds since the epoch. The stored \<^verbatim>\<open>status\<close> is a string that may be absent.
  The server's local time is taken to be UTC.
\<close>

type_synonym datetime = int

type_synonym ServerBooking = "(datetime, datetime, string option) Booking"

definition msPerDay :: int where
  "msPerDay = 1000 * 60 * 60 * 24"

text \<open>
  \<^verbatim>\<open>new Date(year, monthIndex, day)\<close>: local midnight of that day; a month index outside
  0..11 and a day outside the month carry over, so \<^verbatim>\<open>new Date(year, month, 0)\<close> is the
  last day of the month with index \<^verbatim>\<open>month - 1\<close>. A year from 0 to 99 stands for
  1900 to 1999.
\<close>

definition fullYear :: "int \<Rightarrow> int" where
  "fullYear y = (if 0 \<le> y \<and> y \<le> 99 then 1900 + y else y)"

definition newDate :: "int \<Rightarrow> int \<Rightarrow> int \<Rightarrow> datetime" where
  "newDate y monthIdx d =
     (case monthOfIndex (fullYear y * 12 + monthIdx) of
        (yy, mm) \<Rightarrow> (toDays (yy, mm, 1) + d - 1 - toDays (1970, 1, 1)) * msPerDay)"

record TenantRow =
  tenantRowId :: string
  tenantRowRooms :: "RoomConfig list"

text \<open>
  The Prisma client: the booking and tenant tables, and the database's sort of booking
  rows by a named field in a direction (\<^verbatim>\<open>orderBy: { [field]: direction }\<close>).
\<close>

record Prisma =
  booking :: "ServerBooking list"
  tenant :: "TenantRow list"
  orderBy :: "string \<Rightarrow> string \<Rightarrow> ServerBooking list \<Rightarrow> ServerBooking list"

record User =
  userTenantId :: string
  email :: string

record AppContext =
  prisma :: Prisma
  user :: "User option"
  ctxTenantId :: "string option"

definition requireAuth :: "AppContext \<Rightarrow> error + AppContext" where
  "requireAuth context =
     (if user context = None then Inl (Error ''Authentication required'') else Inr context)"

text \<open>A \<^verbatim>\<open>where\<close> field set to \<^verbatim>\<open>undefined\<close> does not filter.\<close>

definition tenantMatches :: "AppContext \<Rightarrow> ('d, 'c, 's) Booking \<Rightarrow> bool" where
  "tenantMatches context b =
     (case ctxTenantId context of None \<Rightarrow> True | Some t \<Rightarrow> tenantId b = t)"

text \<open>
  \<^verbatim>\<open>status: { not: v }\<close> on the stored column: the row's status is present and differs
  from \<^verbatim>\<open>v\<close> (string comparison, case sensitive).
\<close>

definition statusNot :: "string \<Rightarrow> string option \<Rightarrow> bool" where
  "statusNot v st = (case st of None \<Rightarrow> False | Some s \<Rightarrow> s \<noteq> v)"

text \<open>\<^verbatim>\<open>Math.round(x * 100) / 100\<close>\<close>

definition round2 :: "rat \<Rightarrow> rat" where
  "round2 x = of_int \<lfloor>x * 100 + 1 / 2\<rfloor> / 100"

text \<open>An optional string argument is used when it is truthy: present and not empty.\<close>

definition truthy :: "string option \<Rightarrow> bool" where
  "truthy s = (case s of None \<Rightarrow> False | Some v \<Rightarrow> v \<noteq> [])"

definition getOccupancyReport ::
  "AppContext \<Rightarrow> string option \<Rightarrow> int \<Rightarrow> int \<Rightarrow> error + OccupancyReport" where
  "getOccupancyReport context roomArg yr mnth =
     (case requireAuth context of
        Inl err \<Rightarrow> Inl err
      | Inr _ \<Rightarrow>
          if mnth < 1 \<or> mnth > 12 then Inl (Error ''Month must be between 1 and 12'')
          else
            let startDate = newDate yr (mnth - 1) 1;
                endDate = newDate yr mnth 0;
                daysInMonth = getDaysInMonth (fullYear yr) mnth;
                bookings = filter (\<lambda>b.
                    tenantMatches context b \<and> checkIn b \<le> endDate \<and> checkOut b \<ge> startDate \<and>
                    statusNot ''CANCELED'' (status b) \<and>
                    (if truthy roomArg then Booking.room b = the roomArg else True))
                  (booking (prisma context));
                occupiedNights = fold (\<lambda>b acc.
                    let start = (if checkIn b > startDate then checkIn b else startDate);
                        end' = (if checkOut b < endDate then checkOut b else endDate);
                        nights = (end' - start) div msPerDay
                    in acc + max 0 nights) bookings 0;
                totalNights = daysInMonth * (if truthy roomArg then 1 else 5);
                occupancyRate =
                  (if totalNights > 0 then (of_int occupiedNights / of_int totalNights) * 100 else 0)
            in Inr \<lparr>OccupancyReport.room = (if truthy roomArg then the roomArg else ''All''),
                    OccupancyReport.month = (yr, mnth),
                    OccupancyReport.totalNights = totalNights,
                    OccupancyReport.occupiedNights = occupiedNights,
                    OccupancyReport.occupancyRate = round2 occupancyRate\<rparr>)"

text \<open>An optional number argument is truthy when it is present and not zero.\<close>

definition truthyNum :: "int option \<Rightarrow> bool" where
  "truthyNum n = (case n of None \<Rightarrow> False | Some v \<Rightarrow> v \<noteq> 0)"

definition getRevenueReport :: "AppContext \<Rightarrow> int \<Rightarrow> int option \<Rightarrow> error + RevenueReport" where
  "getRevenueReport context yr mnth =
     (case requireAuth context of
        Inl err \<Rightarrow> Inl err
      | Inr _ \<Rightarrow>
          let startDate = (if truthyNum mnth then newDate yr (the mnth - 1) 1 else newDate yr 0 1);
              endDate = (if truthyNum mnth then newDate yr (the mnth) 0 else newDate yr 11 31);
              bookings = filter (\<lambda>b.
                  tenantMatches context b \<and> createdAt b \<ge> startDate \<and> createdAt b \<le> endDate)
                (booking (prisma context));
              totalRevenue = fold (\<lambda>b sum. sum + totalPrice b) bookings 0;
              totalDeposits = fold (\<lambda>b sum. sum + deposit b) bookings 0;
              totalOutstanding = fold (\<lambda>b sum. sum + remaining b) bookings 0;
              bookingCount = length bookings;
              averageBookingValue =
                (if bookingCount > 0 then totalRevenue / of_nat bookingCount else 0)
          in Inr \<lparr>year = yr, RevenueReport.month = mnth,
                  RevenueReport.totalRevenue = round2 totalRevenue,
                  totalDeposits = round2 totalDeposits,
                  totalOutstanding = round2 totalOutstanding,
                  RevenueReport.bookingCount = bookingCount,
                  averageBookingValue = round2 averageBookingValue\<rparr>)"


subsection \<open>Booking queries (bookingResolvers.ts)\<close>

text \<open>
  \<^verbatim>\<open>String.prototype.toUpperCase\<close> and \<^verbatim>\<open>toLowerCase\<close> on the ASCII letters, which is
  what status names and filter values consist of.
\<close>

definition toUpperChar :: "char \<Rightarrow> char" where
  "toUpperChar c =
     (let n = (of_char c :: nat) in if 97 \<le> n \<and> n \<le> 122 then char_of (n - 32) else c)"

definition toLowerChar :: "char \<Rightarrow> char" where
  "toLowerChar c =
     (let n = (of_char c :: nat) in if 65 \<le> n \<and> n \<le> 90 then char_of (n + 32) else c)"

definition toUpperCase :: "string \<Rightarrow> string" where
  "toUpperCase s = map toUpperChar s"

definition toLowerCase :: "string \<Rightarrow> string" where
  "toLowerCase s = map toLowerChar s"

text \<open>
  \<^verbatim>\<open>{ ...booking, status: booking.status?.toUpperCase() || 'UPCOMING' }\<close>: every field is
  copied; an absent status and an empty one (falsy) become \<^verbatim>\<open>'UPCOMING'\<close>.
\<close>

definition normalizeStatus :: "string option \<Rightarrow> string" where
  "normalizeStatus st =
     (case st of
        None \<Rightarrow> ''UPCOMING''
      | Some s \<Rightarrow> (if toUpperCase s = [] then ''UPCOMING'' else toUpperCase s))"

definition normalizeBooking :: "('d, 'c, string option) Booking \<Rightarrow> ('d, 'c, string) Booking" where
  "normalizeBooking b =
     \<lparr>bookingId = bookingId b, tenantId = tenantId b, guestName = guestName b,
      room = Booking.room b, checkIn = checkIn b, checkOut = checkOut b, nights = nights b,
      totalPrice = totalPrice b, deposit = deposit b, remaining = remaining b,
      createdAt = createdAt b, status = normalizeStatus (status b)\<rparr>"

text \<open>The argument \<^verbatim>\<open>filter\<close> of \<^verbatim>\<open>getBookings\<close>; dates are already parsed.\<close>

record BookingFilter =
  filterStatus :: "string option"
  filterRoom :: "string option"
  filterGuestName :: "string option"
  filterStartDate :: "datetime option"
  filterEndDate :: "datetime option"

text \<open>\<^verbatim>\<open>{ contains: v, mode: 'insensitive' }\<close>\<close>

definition containsInsensitive :: "string \<Rightarrow> string \<Rightarrow> bool" where
  "containsInsensitive v s = list_ex (prefix (toLowerCase v)) (suffixes (toLowerCase s))"

text \<open>The \<^verbatim>\<open>where\<close> object that \<^verbatim>\<open>getBookings\<close> builds, as a predicate on rows.\<close>

definition bookingsWhere :: "AppContext \<Rightarrow> BookingFilter option \<Rightarrow> ServerBooking \<Rightarrow> bool" where
  "bookingsWhere context flt b =
     (tenantMatches context b \<and>
      (case flt of
         None \<Rightarrow> True
       | Some f \<Rightarrow>
           (if truthy (filterStatus f)
            then status b = Some (toLowerCase (the (filterStatus f))) else True) \<and>
           (if truthy (filterRoom f) then Booking.room b = the (filterRoom f) else True) \<and>
           (if truthy (filterGuestName f)
            then containsInsensitive (the (filterGuestName f)) (guestName b) else True) \<and>
           (case filterStartDate f of None \<Rightarrow> True | Some d \<Rightarrow> checkIn b \<ge> d) \<and>
           (case filterEndDate f of None \<Rightarrow> True | Some d \<Rightarrow> checkIn b \<le> d)))"

text \<open>
  \<^verbatim>\<open>prisma.booking.findMany({ where, take, skip, orderBy })\<close>: the matching rows, sorted,
  without the first \<^verbatim>\<open>skip\<close>, and at most \<^verbatim>\<open>take\<close> of them when \<^verbatim>\<open>take\<close> is given.
  \<^verbatim>\<open>take\<close> and \<^verbatim>\<open>skip\<close> are page arguments and not negative.
\<close>

definition findMany ::
  "Prisma \<Rightarrow> (ServerBooking \<Rightarrow> bool) \<Rightarrow> string \<Rightarrow> string \<Rightarrow> nat \<Rightarrow> nat option \<Rightarrow>
     ServerBooking list" where
  "findMany db wh field direction skip takeArg =
     (let rows = drop skip (orderBy db field direction (filter wh (booking db)))
      in case takeArg of None \<Rightarrow> rows | Some n \<Rightarrow> take n rows)"

text \<open>
  \<^verbatim>\<open>getBookings\<close>; the defaults \<^verbatim>\<open>limit = 100, offset = 0, sortBy = 'checkIn',
  sortOrder = 'desc'\<close> stand for absent arguments.
\<close>

definition getBookings ::
  "AppContext \<Rightarrow> BookingFilter option \<Rightarrow> nat option \<Rightarrow> nat option \<Rightarrow> string option \<Rightarrow>
     string option \<Rightarrow> error + (datetime, datetime, string) Booking list" where
  "getBookings context flt limitArg offsetArg sortByArg sortOrderArg =
     (let limit = (case limitArg of None \<Rightarrow> 100 | Some n \<Rightarrow> n);
          offset = (case offsetArg of None \<Rightarrow> 0 | Some n \<Rightarrow> n);
          sortBy = (case sortByArg of None \<Rightarrow> ''checkIn'' | Some f \<Rightarrow> f);
          sortOrder = (case sortOrderArg of None \<Rightarrow> ''desc'' | Some d \<Rightarrow> d)
      in case requireAuth context of
           Inl err \<Rightarrow> Inl err
         | Inr _ \<Rightarrow>
             let bookings =
               findMany (prisma context) (bookingsWhere context flt) sortBy
                 (if toLowerCase sortOrder = ''asc'' then ''asc'' else ''desc'')
                 offset (Some (min limit 500))
             in Inr (map normalizeBooking bookings))"

definition getBooking ::
  "AppContext \<Rightarrow> string \<Rightarrow> error + (datetime, datetime, string) Booking" where
  "getBooking context ident =
     (case requireAuth context of
        Inl err \<Rightarrow> Inl err
      | Inr _ \<Rightarrow>
          (case find (\<lambda>b. bookingId b = ident \<and> tenantMatches context b)
                  (booking (prisma context)) of
             None \<Rightarrow> Inl (Error ''Booking not found'')
           | Some b \<Rightarrow> Inr (normalizeBooking b)))"

definition getBookingsByDateRange ::
  "AppContext \<Rightarrow> datetime \<Rightarrow> datetime \<Rightarrow> error + (datetime, datetime, string) Booking list" where
  "getBookingsByDateRange context start end' =
     (case requireAuth context of
        Inl err \<Rightarrow> Inl err
      | Inr _ \<Rightarrow>
          if start > end' then Inl (Error ''Start date must be before end date'')
          else
            let bookings =
              findMany (prisma context)
                (\<lambda>b. tenantMatches context b \<and> checkIn b \<ge> start \<and> checkOut b \<le> end')
                ''checkIn'' ''asc'' 0 None
            in Inr (map normalizeBooking bookings))"

definition getBookingsByRoom ::
  "AppContext \<Rightarrow> string \<Rightarrow> error + (datetime, datetime, string) Booking list" where
  "getBookingsByRoom context roomArg =
     (case requireAuth context of
        Inl err \<Rightarrow> Inl err
      | Inr _ \<Rightarrow>
          let bookings =
            findMany (prisma context)
              (\<lambda>b. tenantMatches context b \<and> Booking.room b = roomArg)
              ''checkIn'' ''desc'' 0 None
          in Inr (map normalizeBooking bookings))"


section \<open>Example data\<close>

text \<open>
  Bookings, rows and a request context for the concrete cases below. A booking's
  \<^verbatim>\<open>nights\<close> is the length of its stay, as \<^verbatim>\<open>calculateBookingDetails\<close> stores it. The
  example database sorts by check-in date.
\<close>

definition mkBooking ::
  "string \<Rightarrow> isodate \<Rightarrow> isodate \<Rightarrow> rat \<Rightarrow> isodate \<Rightarrow> string \<Rightarrow> ClientBooking" where
  "mkBooking r ci co price cr st =
     \<lparr>bookingId = ''b1'', tenantId = ''t1'', guestName = ''Guest'', room = r, checkIn = ci,
      checkOut = co, nights = differenceInDays co ci, totalPrice = price, deposit = 0,
      remaining = price, createdAt = (cr, ''09:30:00.000Z''), status = st\<rparr>"

definition mkRow ::
  "string \<Rightarrow> datetime \<Rightarrow> datetime \<Rightarrow> rat \<Rightarrow> rat \<Rightarrow> datetime \<Rightarrow> string option \<Rightarrow> ServerBooking" where
  "mkRow r ci co price dep cr st =
     \<lparr>bookingId = ''b1'', tenantId = ''t1'', guestName = ''Guest'', room = r, checkIn = ci,
      checkOut = co, nights = (co - ci) div msPerDay, totalPrice = price, deposit = dep,
      remaining = price - dep, createdAt = cr, status = st\<rparr>"

definition mkContext :: "ServerBooking list \<Rightarrow> RoomConfig list \<Rightarrow> AppContext" where
  "mkContext rows rms =
     \<lparr>prisma = \<lparr>booking = rows, tenant = [\<lparr>tenantRowId = ''t1'', tenantRowRooms = rms\<rparr>],
                orderBy = (\<lambda>field direction xs.
                  if direction = ''asc'' then sort_key checkIn xs else rev (sort_key checkIn xs))\<rparr>,
      user = Some \<lparr>userTenantId = ''t1'', email = ''owner@example.com''\<rparr>,
      ctxTenantId = Some ''t1''\<rparr>"


section \<open>Facts about the calendar\<close>

lemma daysBeforeMonth_values:
  "daysBeforeMonth y 1 = 0"
  "daysBeforeMonth y 2 = 31"
  "daysBeforeMonth y 3 = 31 + getDaysInMonth y 2"
  "daysBeforeMonth y 4 = 62 + getDaysInMonth y 2"
  "daysBeforeMonth y 5 = 92 + getDaysInMonth y 2"
  "daysBeforeMonth y 6 = 123 + getDaysInMonth y 2"
  "daysBeforeMonth y 7 = 153 + getDaysInMonth y 2"
  "daysBeforeMonth y 8 = 184 + getDaysInMonth y 2"
  "daysBeforeMonth y 9 = 215 + getDaysInMonth y 2"
  "daysBeforeMonth y 10 = 245 + getDaysInMonth y 2"
  "daysBeforeMonth y 11 = 276 + getDaysInMonth y 2"
  "daysBeforeMonth y 12 = 306 + getDaysInMonth y 2"
  "daysBeforeMonth y 13 = 337 + getDaysInMonth y 2"
  by (simp_all add: daysBeforeMonth_def upto_rec1 getDaysInMonth_def)

lemmas cal_eval = endOfMonth_def startOfMonth_def differenceInDays_def toDays_def
  getDaysInMonth_def isLeapYear_def daysBeforeYear_def daysBeforeMonth_values

lemma date_less_iff:
  "((y::int, m::int, d::int) < (y', m', d')) = (y < y' \<or> (y = y' \<and> (m < m' \<or> (m = m' \<and> d < d'))))"
  by (auto simp: less_prod_def less_eq_prod_def)

lemma date_le_iff:
  "((y::int, m::int, d::int) \<le> (y', m', d')) = (y < y' \<or> (y = y' \<and> (m < m' \<or> (m = m' \<and> d \<le> d'))))"
  by (auto simp: less_prod_def less_eq_prod_def)

lemma div_pred:
  fixes y k :: int
  assumes "0 < k"
  shows "(y - 1) div k = y div k - (if y mod k = 0 then 1 else 0)"
proof (cases "y mod k = 0")
  case True
  have "y = k * (y div k) + y mod k" by simp
  with True have "y - 1 = k * (y div k - 1) + (k - 1)" by (simp add: algebra_simps)
  moreover have "0 \<le> k - 1" "k - 1 < k" using assms by simp_all
  ultimately have "(y - 1) div k = y div k - 1" by (rule int_div_pos_eq)
  with True show ?thesis by simp
next
  case False
  have "0 \<le> y mod k" "y mod k < k" using assms by simp_all
  with False have r: "0 \<le> y mod k - 1" "y mod k - 1 < k" by simp_all
  have "y - 1 = k * (y div k) + (y mod k - 1)" by simp
  from this r have "(y - 1) div k = y div k" by (rule int_div_pos_eq)
  with False show ?thesis by simp
qed

lemma leap_mods:
  fixes y :: int
  shows "y mod 400 = 0 \<Longrightarrow> y mod 100 = 0" and "y mod 100 = 0 \<Longrightarrow> y mod 4 = 0"
proof -
  assume "y mod 400 = 0"
  then have "400 dvd y" by (simp add: dvd_eq_mod_eq_0)
  moreover have "(100::int) dvd 400" by simp
  ultimately have "100 dvd y" by (rule dvd_trans[rotated])
  then show "y mod 100 = 0" by (simp add: dvd_eq_mod_eq_0)
next
  assume "y mod 100 = 0"
  then have "100 dvd y" by (simp add: dvd_eq_mod_eq_0)
  moreover have "(4::int) dvd 100" by simp
  ultimately have "4 dvd y" by (rule dvd_trans[rotated])
  then show "y mod 4 = 0" by (simp add: dvd_eq_mod_eq_0)
qed

lemma daysBeforeYear_next:
  "daysBeforeYear (y + 1) = daysBeforeYear y + (if isLeapYear y then 366 else 365)"
proof -
  have d4: "(y - 1) div 4 = y div 4 - (if y mod 4 = 0 then 1 else 0)" by (rule div_pred) simp
  have d100: "(y - 1) div 100 = y div 100 - (if y mod 100 = 0 then 1 else 0)" by (rule div_pred) simp
  have d400: "(y - 1) div 400 = y div 400 - (if y mod 400 = 0 then 1 else 0)" by (rule div_pred) simp
  show ?thesis
    using leap_mods[of y]
    by (auto simp: daysBeforeYear_def isLeapYear_def d4 d100 d400)
qed


lemma getDaysInMonth_ge_28: "28 \<le> getDaysInMonth y m"
  by (simp add: getDaysInMonth_def)

lemma daysBeforeMonth_1: "daysBeforeMonth y 1 = 0"
  by (simp add: daysBeforeMonth_def)

lemma daysBeforeMonth_next:
  assumes "1 \<le> m"
  shows "daysBeforeMonth y (m + 1) = daysBeforeMonth y m + getDaysInMonth y m"
proof -
  have "[1..m] = [1..m - 1] @ [m]" using assms by (rule upto_rec2)
  then show ?thesis by (simp add: daysBeforeMonth_def)
qed

lemma daysBeforeMonth_13: "daysBeforeMonth y 13 = (if isLeapYear y then 366 else 365)"
  by (simp add: daysBeforeMonth_def upto_rec1 getDaysInMonth_def)

lemma validDate_addDays1: "validDate d \<Longrightarrow> validDate (addDays1 d)"
  using getDaysInMonth_ge_28
  by (cases d) (auto simp: validDate_def addDays1_def intro: order_trans[of 1 28])

lemma toDays_addDays1:
  assumes "validDate d"
  shows "toDays (addDays1 d) = toDays d + 1"
proof -
  obtain y m dd where d: "d = (y, m, dd)" by (cases d) auto
  from assms d have v: "1 \<le> m" "m \<le> 12" "1 \<le> dd" "dd \<le> getDaysInMonth y m"
    by (simp_all add: validDate_def)
  show ?thesis
  proof (cases "dd < getDaysInMonth y m")
    case True
    then show ?thesis by (simp add: d addDays1_def toDays_def)
  next
    case last: False
    with v have dd: "dd = getDaysInMonth y m" by simp
    show ?thesis
    proof (cases "m < 12")
      case True
      with last show ?thesis
        using daysBeforeMonth_next[OF v(1), of y] by (simp add: d addDays1_def toDays_def dd)
    next
      case False
      with v have m: "m = 12" by simp
      have "daysBeforeMonth y 13 = daysBeforeMonth y 12 + getDaysInMonth y 12"
        using daysBeforeMonth_next[of 12 y] by simp
      then show ?thesis
        using last by (simp add: d m addDays1_def toDays_def dd daysBeforeMonth_1
            daysBeforeYear_next daysBeforeMonth_13)
    qed
  qed
qed

lemma addDays1_least:
  assumes "validDate c" "validDate e" "c < e"
  shows "addDays1 c \<le> e"
proof -
  obtain y m d where c: "c = (y, m, d)" by (cases c) auto
  obtain y' m' d' where e: "e = (y', m', d')" by (cases e) auto
  from assms have vc: "1 \<le> m" "m \<le> 12" "1 \<le> d" "d \<le> getDaysInMonth y m"
    and ve: "1 \<le> m'" "m' \<le> 12" "1 \<le> d'" "d' \<le> getDaysInMonth y' m'"
    by (simp_all add: validDate_def c e)
  from assms(3) have "y < y' \<or> (y = y' \<and> (m < m' \<or> (m = m' \<and> d < d')))"
    unfolding c e date_less_iff .
  then consider "y < y'" | "y = y'" "m < m'" | "y = y'" "m = m'" "d < d'"
    by blast
  then show ?thesis
  proof cases
    case 1
    with ve show ?thesis unfolding c e addDays1_def date_le_iff by auto
  next
    case 2
    with ve show ?thesis unfolding c e addDays1_def date_le_iff by auto
  next
    case 3
    with ve show ?thesis unfolding c e addDays1_def date_le_iff by simp
  qed
qed

lemma daysBeforeMonth_mono:
  assumes "1 \<le> m" "m < m'"
  shows "daysBeforeMonth y m + getDaysInMonth y m \<le> daysBeforeMonth y m'"
proof -
  have "m + 1 \<le> m'" using assms by simp
  then show ?thesis
  proof (induction m' rule: int_ge_induct)
    case base
    then show ?case using daysBeforeMonth_next[OF assms(1)] by simp
  next
    case (step i)
    have "1 \<le> i" using step.hyps assms(1) by simp
    from daysBeforeMonth_next[OF this, of y] step.IH getDaysInMonth_ge_28[of y i]
    show ?case by simp
  qed
qed

lemma daysBeforeYear_mono:
  assumes "y < y'"
  shows "daysBeforeYear y + (if isLeapYear y then 366 else 365) \<le> daysBeforeYear y'"
proof -
  have "y + 1 \<le> y'" using assms by simp
  then show ?thesis
  proof (induction y' rule: int_ge_induct)
    case base
    then show ?case by (simp add: daysBeforeYear_next)
  next
    case (step i)
    then show ?case by (simp add: daysBeforeYear_next[of i])
  qed
qed

lemma toDays_year_bounds:
  assumes "validDate (y, m, d)"
  shows "daysBeforeYear y < toDays (y, m, d)"
    and "toDays (y, m, d) \<le> daysBeforeYear y + (if isLeapYear y then 366 else 365)"
proof -
  from assms have v: "1 \<le> m" "m \<le> 12" "1 \<le> d" "d \<le> getDaysInMonth y m"
    by (simp_all add: validDate_def)
  have "0 \<le> daysBeforeMonth y m"
  proof (cases "m = 1")
    case True then show ?thesis by (simp add: daysBeforeMonth_1)
  next
    case False
    with v have "1 < m" by simp
    from daysBeforeMonth_mono[OF _ this, of y] getDaysInMonth_ge_28[of y 1]
    show ?thesis by (simp add: daysBeforeMonth_1)
  qed
  with v show "daysBeforeYear y < toDays (y, m, d)" by (simp add: toDays_def)
  have "daysBeforeMonth y m + getDaysInMonth y m \<le> daysBeforeMonth y 13"
    using daysBeforeMonth_mono[OF v(1), of 13 y] v by simp
  with v show "toDays (y, m, d) \<le> daysBeforeYear y + (if isLeapYear y then 366 else 365)"
    by (simp add: toDays_def daysBeforeMonth_13)
qed

lemma toDays_strict_mono:
  assumes "validDate a" "validDate b" "a < b"
  shows "toDays a < toDays b"
proof -
  obtain y m d where a: "a = (y, m, d)" by (cases a) auto
  obtain y' m' d' where b: "b = (y', m', d')" by (cases b) auto
  from assms have va: "1 \<le> m" "m \<le> 12" "1 \<le> d" "d \<le> getDaysInMonth y m"
    and vb: "1 \<le> m'" "m' \<le> 12" "1 \<le> d'" "d' \<le> getDaysInMonth y' m'"
    by (simp_all add: validDate_def a b)
  from assms(3) have "y < y' \<or> (y = y' \<and> (m < m' \<or> (m = m' \<and> d < d')))"
    unfolding a b date_less_iff .
  then consider "y < y'" | "y = y'" "m < m'" | "y = y'" "m = m'" "d < d'"
    by blast
  then show ?thesis
  proof cases
    case 1
    from toDays_year_bounds(2)[OF assms(1)[unfolded a]] daysBeforeYear_mono[OF 1]
      toDays_year_bounds(1)[OF assms(2)[unfolded b]]
    show ?thesis by (simp add: a b)
  next
    case 2
    from daysBeforeMonth_mono[OF va(1) 2(2), of y] va vb 2(1)
    show ?thesis by (simp add: a b toDays_def)
  next
    case 3
    then show ?thesis by (simp add: a b toDays_def)
  qed
qed

lemma toDays_mono:
  assumes "validDate a" "validDate b" "a \<le> b"
  shows "toDays a \<le> toDays b"
proof (cases "a = b")
  case True then show ?thesis by simp
next
  case False
  with assms(3) have "a < b" by simp
  from toDays_strict_mono[OF assms(1,2) this] show ?thesis by simp
qed


section \<open>Facts about the day loop\<close>

lemma addDays1_greater: "d < addDays1 d"
  by (cases d) (auto simp: addDays1_def)

lemma occupiedDaysLoop_step:
  "c \<le> e \<Longrightarrow> occupiedDaysLoop bs c e n =
     occupiedDaysLoop bs (addDays1 c) e (if isOccupied bs c then n + 1 else n)"
  by (subst occupiedDaysLoop.simps) simp

lemma occupiedDaysLoop_stop: "\<not> c \<le> e \<Longrightarrow> occupiedDaysLoop bs c e n = n"
  by (subst occupiedDaysLoop.simps) simp

lemma occupiedDaysLoop_unoccupied:
  "(\<And>d. \<not> isOccupied roomBookings d) \<Longrightarrow> occupiedDaysLoop roomBookings c e n = n"
proof (induction roomBookings c e n rule: occupiedDaysLoop.induct)
  case (1 roomBookings current end' occupiedDays)
  show ?case
  proof (cases "current \<le> end'")
    case True
    with 1 show ?thesis by (subst occupiedDaysLoop.simps) simp
  next
    case False
    then show ?thesis by (subst occupiedDaysLoop.simps) simp
  qed
qed


lemma roomStat_no_bookings:
  "roomStat [] s e c = \<lparr>roomId = id' c, RoomStat.totalNights = 0, RoomStat.totalRevenue = 0,
     RoomStat.occupancyRate = 0\<rparr>"
  by (simp add: roomStat_def Let_def occupiedDaysLoop_unoccupied isOccupied_def)


section \<open>Half-open stays\<close>

text \<open>
  C8. A day is counted as occupied by a booking exactly when it is on or after the check-in
  date and strictly before the check-out date: this is the test of \<^const>\<open>isOccupied\<close>, for
  one booking and for any list of them, and the loop over a one-day window counts the day
  exactly then. A stay from 2026-03-10 to 2026-03-13 occupies March 10, 11 and 12, and
  neither March 13 nor March 9.
\<close>

theorem half_open_interval_occupancy:
  "isOccupied [b] d = (checkIn b \<le> d \<and> d < checkOut b) \<and>
   isOccupied bs d = (\<exists>b \<in> set bs. checkIn b \<le> d \<and> d < checkOut b) \<and>
   occupiedDaysLoop [b] d d 0 = (if checkIn b \<le> d \<and> d < checkOut b then 1 else 0) \<and>
   isOccupied [b\<lparr>checkIn := (2026,3,10), checkOut := (2026,3,13)\<rparr>] (2026,3,10) \<and>
   isOccupied [b\<lparr>checkIn := (2026,3,10), checkOut := (2026,3,13)\<rparr>] (2026,3,11) \<and>
   isOccupied [b\<lparr>checkIn := (2026,3,10), checkOut := (2026,3,13)\<rparr>] (2026,3,12) \<and>
   \<not> isOccupied [b\<lparr>checkIn := (2026,3,10), checkOut := (2026,3,13)\<rparr>] (2026,3,13) \<and>
   \<not> isOccupied [b\<lparr>checkIn := (2026,3,10), checkOut := (2026,3,13)\<rparr>] (2026,3,9)"
proof -
  have "\<not> addDays1 d \<le> d" using addDays1_greater[of d] by simp
  then have "occupiedDaysLoop [b] d d 0 = (if checkIn b \<le> d \<and> d < checkOut b then 1 else 0)"
    by (simp add: occupiedDaysLoop_step occupiedDaysLoop_stop isOccupied_def)
  moreover have "isOccupied bs d = (\<exists>b \<in> set bs. checkIn b \<le> d \<and> d < checkOut b)"
    by (simp add: isOccupied_def list_ex_iff)
  ultimately show ?thesis by (simp add: isOccupied_def)
qed


section \<open>Clamping a stay to a month\<close>

text \<open>
  C1. A stay from 2026-02-25 to 2026-03-05 has 8 nights. The client adds 3 nights of it to
  February and 4 to March, and the server's occupancy report does the same: both clamp the
  end of the stay to the last day of the month, not to the first day of the next one, so
  the night of the last day of the month is lost.
\<close>

theorem month_boundary_clamping_loses_a_night:
  "monthOccupancy (monthBookings [mkBooking ''A1'' (2026,2,25) (2026,3,5) 800 (2026,1,10) ''UPCOMING''] ''ALL'' (2026,2)) (2026,2) = 3 \<and>
   monthOccupancy (monthBookings [mkBooking ''A1'' (2026,2,25) (2026,3,5) 800 (2026,1,10) ''UPCOMING''] ''ALL'' (2026,3)) (2026,3) = 4 \<and>
   nights (mkBooking ''A1'' (2026,2,25) (2026,3,5) 800 (2026,1,10) ''UPCOMING'') = 8 \<and>
   getOccupancyReport
     (mkContext [mkRow ''A1'' (newDate 2026 1 25) (newDate 2026 2 5) 800 0 (newDate 2026 0 10) (Some ''upcoming'')] [])
     (Some ''A1'') 2026 2 =
   Inr \<lparr>OccupancyReport.room = ''A1'', OccupancyReport.month = (2026, 2),
        OccupancyReport.totalNights = 28, occupiedNights = 3,
        OccupancyReport.occupancyRate = 1071 / 100\<rparr> \<and>
   getOccupancyReport
     (mkContext [mkRow ''A1'' (newDate 2026 1 25) (newDate 2026 2 5) 800 0 (newDate 2026 0 10) (Some ''upcoming'')] [])
     (Some ''A1'') 2026 3 =
   Inr \<lparr>OccupancyReport.room = ''A1'', OccupancyReport.month = (2026, 3),
        OccupancyReport.totalNights = 31, occupiedNights = 4,
        OccupancyReport.occupancyRate = 129 / 10\<rparr>"
proof -
  have client: "monthOccupancy (monthBookings [mkBooking ''A1'' (2026,2,25) (2026,3,5) 800 (2026,1,10) ''UPCOMING''] ''ALL'' (2026,2)) (2026,2) = 3"
    "monthOccupancy (monthBookings [mkBooking ''A1'' (2026,2,25) (2026,3,5) 800 (2026,1,10) ''UPCOMING''] ''ALL'' (2026,3)) (2026,3) = 4"
    "nights (mkBooking ''A1'' (2026,2,25) (2026,3,5) 800 (2026,1,10) ''UPCOMING'') = 8"
    by (simp_all add: monthOccupancy_def monthBookings_def mkBooking_def occupancyDays_def cal_eval)
  have feb: "getOccupancyReport
     (mkContext [mkRow ''A1'' (newDate 2026 1 25) (newDate 2026 2 5) 800 0 (newDate 2026 0 10) (Some ''upcoming'')] [])
     (Some ''A1'') 2026 2 =
   Inr \<lparr>OccupancyReport.room = ''A1'', OccupancyReport.month = (2026, 2),
        OccupancyReport.totalNights = 28, occupiedNights = 3,
        OccupancyReport.occupancyRate = 1071 / 100\<rparr>"
    by code_simp
  have mar: "getOccupancyReport
     (mkContext [mkRow ''A1'' (newDate 2026 1 25) (newDate 2026 2 5) 800 0 (newDate 2026 0 10) (Some ''upcoming'')] [])
     (Some ''A1'') 2026 3 =
   Inr \<lparr>OccupancyReport.room = ''A1'', OccupancyReport.month = (2026, 3),
        OccupancyReport.totalNights = 31, occupiedNights = 4,
        OccupancyReport.occupancyRate = 129 / 10\<rparr>"
    by code_simp
  from client feb mar show ?thesis by (intro conjI)
qed


section \<open>Canceled bookings on the server\<close>

text \<open>
  C2. \<^const>\<open>getRevenueReport\<close> selects rows by tenant and creation date only, so a canceled
  booking counts in every total of the revenue report, whether its status is stored as
  \<^verbatim>\<open>canceled\<close> (as the mutations store it) or as \<^verbatim>\<open>CANCELED\<close>. \<^const>\<open>getOccupancyReport\<close>
  excludes the status \<^verbatim>\<open>CANCELED\<close>, which a row stored as \<^verbatim>\<open>canceled\<close> does not have,
  so such a row counts in the occupied nights too.
\<close>

theorem revenue_report_counts_canceled:
  "getRevenueReport
     (mkContext [mkRow ''A1'' (newDate 2026 2 10) (newDate 2026 2 13) 300 100 (newDate 2026 2 1) (Some ''canceled'')] [])
     2026 (Some 3) =
   Inr \<lparr>year = 2026, RevenueReport.month = Some 3, RevenueReport.totalRevenue = 300,
        totalDeposits = 100, totalOutstanding = 200, RevenueReport.bookingCount = 1,
        averageBookingValue = 300\<rparr> \<and>
   getRevenueReport
     (mkContext [mkRow ''A1'' (newDate 2026 2 10) (newDate 2026 2 13) 300 100 (newDate 2026 2 1) (Some ''CANCELED'')] [])
     2026 (Some 3) =
   Inr \<lparr>year = 2026, RevenueReport.month = Some 3, RevenueReport.totalRevenue = 300,
        totalDeposits = 100, totalOutstanding = 200, RevenueReport.bookingCount = 1,
        averageBookingValue = 300\<rparr> \<and>
   getOccupancyReport
     (mkContext [mkRow ''A1'' (newDate 2026 2 10) (newDate 2026 2 13) 300 100 (newDate 2026 2 1) (Some ''canceled'')] [])
     (Some ''A1'') 2026 3 =
   Inr \<lparr>OccupancyReport.room = ''A1'', OccupancyReport.month = (2026, 3),
        OccupancyReport.totalNights = 31, occupiedNights = 3,
        OccupancyReport.occupancyRate = 968 / 100\<rparr>"
  by code_simp


text \<open>
  The client report, by contrast, does not depend on the canceled bookings: removing them
  from the collection leaves every figure of the report as it is.
\<close>

lemma filtered_ignores_canceled:
  "filtered (filter (\<lambda>b. status b \<noteq> ''CANCELED'') bookings) rs re flt rt = filtered bookings rs re flt rt"
  unfolding filtered_def filter_filter
  by (rule filter_cong) (auto simp: Let_def)

lemma monthBookings_ignores_canceled:
  "monthBookings (filter (\<lambda>b. status b \<noteq> ''CANCELED'') bookings) flt mo = monthBookings bookings flt mo"
  unfolding monthBookings_def Let_def filter_filter
  by (rule filter_cong) auto

lemma client_report_ignores_canceled:
  "reportData lib (filter (\<lambda>b. status b \<noteq> ''CANCELED'') bookings) reportStartDate reportEndDate
     reportRoomFilter reportType tenantRooms =
   reportData lib bookings reportStartDate reportEndDate reportRoomFilter reportType tenantRooms"
proof -
  have "monthStat (filter (\<lambda>b. status b \<noteq> ''CANCELED'') bookings) reportRoomFilter tenantRooms =
      monthStat bookings reportRoomFilter tenantRooms"
    by (rule ext) (simp add: monthStat_def monthBookings_ignores_canceled Let_def)
  then show ?thesis
    by (simp add: reportData_def filtered_ignores_canceled Let_def split: sum.split)
qed

section \<open>The room count of the server's occupancy report\<close>

text \<open>
  C5. Without a room argument the server multiplies the days of the month by 5, whatever
  rooms the tenant has: for a tenant with three rooms February 2026 has 140 possible
  nights, not 84, and a stay of 7 nights gives a rate of 5 percent. The client divides
  the same 7 nights by 28 times 3.
\<close>

theorem server_denominator_is_five_rooms:
  "getOccupancyReport
     (mkContext [] [\<lparr>id' = ''R1'', name' = ''One''\<rparr>, \<lparr>id' = ''R2'', name' = ''Two''\<rparr>,
                   \<lparr>id' = ''R3'', name' = ''Three''\<rparr>])
     None 2026 2 =
   Inr \<lparr>OccupancyReport.room = ''All'', OccupancyReport.month = (2026, 2),
        OccupancyReport.totalNights = 140, occupiedNights = 0,
        OccupancyReport.occupancyRate = 0\<rparr> \<and>
   getOccupancyReport
     (mkContext [mkRow ''R1'' (newDate 2026 1 1) (newDate 2026 1 8) 700 0 (newDate 2026 0 10) (Some ''upcoming'')]
        [\<lparr>id' = ''R1'', name' = ''One''\<rparr>, \<lparr>id' = ''R2'', name' = ''Two''\<rparr>,
         \<lparr>id' = ''R3'', name' = ''Three''\<rparr>])
     None 2026 2 =
   Inr \<lparr>OccupancyReport.room = ''All'', OccupancyReport.month = (2026, 2),
        OccupancyReport.totalNights = 140, occupiedNights = 7,
        OccupancyReport.occupancyRate = 5\<rparr> \<and>
   monthStat [mkBooking ''R1'' (2026,2,1) (2026,2,8) 700 (2026,1,10) ''UPCOMING''] ''ALL''
     [\<lparr>id' = ''R1'', name' = ''One''\<rparr>, \<lparr>id' = ''R2'', name' = ''Two''\<rparr>,
      \<lparr>id' = ''R3'', name' = ''Three''\<rparr>] (2026,2) =
   \<lparr>month = (2026,2), revenue = 700, fillRate = 7 / (28 * 3) * 100\<rparr>"
  by code_simp


section \<open>A report window whose end is before its start\<close>





section \<open>Monthly revenue\<close>

lemma fold_add_sum_list:
  fixes f :: "'a \<Rightarrow> 'n::comm_monoid_add"
  shows "fold (\<lambda>b sum. sum + f b) xs a = a + sum_list (map f xs)"
  by (induction xs arbitrary: a) (simp_all add: add.assoc)

lemma fold_cond_add_sum_list:
  fixes f :: "'a \<Rightarrow> 'n::comm_monoid_add"
  shows "fold (\<lambda>b sum. if P b then sum + f b else sum) xs a = a + sum_list (map f (filter P xs))"
  by (induction xs arbitrary: a) (simp_all add: add.assoc)

lemma monthlyStats_of_reportData:
  assumes "reportData lib bookings rs re flt rt tenantRooms = Inr r"
    and "ms \<in> set (monthlyStats r)"
  shows "ms = monthStat bookings flt tenantRooms (MonthStat.month ms)"
proof -
  from assms(1) obtain months where
    "monthlyStats r = map (monthStat bookings flt tenantRooms) months"
    by (auto simp: reportData_def Let_def split: sum.splits)
  with assms(2) obtain mo where "ms = monthStat bookings flt tenantRooms mo" by auto
  moreover have "MonthStat.month (monthStat bookings flt tenantRooms mo) = mo"
    by (simp add: monthStat_def Let_def)
  ultimately show ?thesis by simp
qed

text \<open>
  C4 (as the code has it). For every month bucket of the report, the revenue is the sum of
  \<^verbatim>\<open>totalPrice\<close> over the bookings that are not canceled, match the room filter and have
  their check-in date in that month (from its first to its last day), for stays whose
  check-out is after their check-in. The report type is a free variable of the statement:
  the month's revenue goes by the check-in date under both bases.
\<close>

theorem monthly_revenue_by_check_in:
  assumes window: "validDate reportStartDate" "validDate reportEndDate"
    and valid: "\<forall>b \<in> set bookings. checkIn b < checkOut b"
    and rep: "reportData lib bookings reportStartDate reportEndDate reportRoomFilter reportType tenantRooms = Inr r"
    and ms: "ms \<in> set (monthlyStats r)"
  shows "revenue ms =
    sum_list (map totalPrice (filter (\<lambda>b.
      status b \<noteq> ''CANCELED'' \<and> (reportRoomFilter = ''ALL'' \<or> room b = reportRoomFilter) \<and>
      startOfMonth (MonthStat.month ms) \<le> checkIn b \<and> checkIn b \<le> endOfMonth (MonthStat.month ms))
      bookings))"
proof -
  let ?mo = "MonthStat.month ms"
  have eq: "ms = monthStat bookings reportRoomFilter tenantRooms ?mo"
    using rep ms by (rule monthlyStats_of_reportData)
  have "revenue (monthStat bookings reportRoomFilter tenantRooms ?mo) =
      monthRevenue (monthBookings bookings reportRoomFilter ?mo) ?mo"
    by (simp add: monthStat_def Let_def)
  also have "\<dots> = sum_list (map totalPrice (filter (\<lambda>b.
      (status b \<noteq> ''CANCELED'' \<and> checkIn b \<le> endOfMonth ?mo \<and> checkOut b > startOfMonth ?mo \<and>
        (reportRoomFilter = ''ALL'' \<or> room b = reportRoomFilter)) \<and>
      (checkIn b \<ge> startOfMonth ?mo \<and> checkIn b \<le> endOfMonth ?mo)) bookings))"
    by (simp add: monthRevenue_def monthBookings_def Let_def fold_cond_add_sum_list)
  also have "\<dots> = sum_list (map totalPrice (filter (\<lambda>b.
      status b \<noteq> ''CANCELED'' \<and> (reportRoomFilter = ''ALL'' \<or> room b = reportRoomFilter) \<and>
      startOfMonth ?mo \<le> checkIn b \<and> checkIn b \<le> endOfMonth ?mo) bookings))"
  proof -
    have "filter (\<lambda>b.
      (status b \<noteq> ''CANCELED'' \<and> checkIn b \<le> endOfMonth ?mo \<and> checkOut b > startOfMonth ?mo \<and>
        (reportRoomFilter = ''ALL'' \<or> room b = reportRoomFilter)) \<and>
      (checkIn b \<ge> startOfMonth ?mo \<and> checkIn b \<le> endOfMonth ?mo)) bookings =
      filter (\<lambda>b.
      status b \<noteq> ''CANCELED'' \<and> (reportRoomFilter = ''ALL'' \<or> room b = reportRoomFilter) \<and>
      startOfMonth ?mo \<le> checkIn b \<and> checkIn b \<le> endOfMonth ?mo) bookings"
    proof (rule filter_cong[OF refl])
      fix b assume "b \<in> set bookings"
      with valid have "checkIn b < checkOut b" by blast
      then have "startOfMonth ?mo \<le> checkIn b \<Longrightarrow> startOfMonth ?mo < checkOut b"
        by (rule order.strict_trans1[rotated])
      then show "((status b \<noteq> ''CANCELED'' \<and> checkIn b \<le> endOfMonth ?mo \<and> checkOut b > startOfMonth ?mo \<and>
        (reportRoomFilter = ''ALL'' \<or> room b = reportRoomFilter)) \<and>
      (checkIn b \<ge> startOfMonth ?mo \<and> checkIn b \<le> endOfMonth ?mo)) =
      (status b \<noteq> ''CANCELED'' \<and> (reportRoomFilter = ''ALL'' \<or> room b = reportRoomFilter) \<and>
      startOfMonth ?mo \<le> checkIn b \<and> checkIn b \<le> endOfMonth ?mo)"
        by blast
    qed
    then show ?thesis by simp
  qed
  finally show ?thesis using eq by simp
qed

lemma created_basis_example:
  "reportData DateFnsV3
     [mkBooking ''A1'' (2026,3,20) (2026,3,23) 300 (2026,2,28) ''UPCOMING'']
     (2026,2,27) (2026,3,2) ''A1'' created [\<lparr>id' = ''A1'', name' = ''A1''\<rparr>] =
   Inr \<lparr>roomStats = [\<lparr>roomId = ''A1'', RoomStat.totalNights = 3,
               RoomStat.totalRevenue = 300, RoomStat.occupancyRate = 0\<rparr>],
        totalRevenue = 300, totalNights = 3, bookingCount = 1,
        monthlyStats = [\<lparr>month = (2026,2), revenue = 0, fillRate = 0\<rparr>,
                        \<lparr>month = (2026,3), revenue = 300, fillRate = 300 / 31\<rparr>]\<rparr>"
proof -
  have ms: "[monthIndex (2026,2,27)..monthIndex (2026,3,2)] = [24313, 24314]"
    by (simp add: monthIndex_def upto_rec1)
  show ?thesis
    by (simp add: reportData_def eachMonthOfInterval_def filtered_def roomStat_def ms
        rooms_def monthOfIndex_def monthStat_def monthBookings_def monthRevenue_def
        monthOccupancy_def occupancyDays_def mkBooking_def createdDate_def isOccupied_def
        occupiedDaysLoop_step occupiedDaysLoop_stop addDays1_def cal_eval Let_def)
qed

theorem monthly_revenue_by_check_in_witness:
  "validDate (2026,2,27) \<and> validDate (2026,3,2) \<and>
   checkIn (mkBooking ''A1'' (2026,3,20) (2026,3,23) 300 (2026,2,28) ''UPCOMING'') <
     checkOut (mkBooking ''A1'' (2026,3,20) (2026,3,23) 300 (2026,2,28) ''UPCOMING'') \<and>
   revenue \<lparr>month = (2026,3), revenue = 300, fillRate = 300 / 31\<rparr> =
     sum_list (map totalPrice (filter (\<lambda>b.
       status b \<noteq> ''CANCELED'' \<and> (''A1'' = ''ALL'' \<or> room b = ''A1'') \<and>
       startOfMonth (2026,3) \<le> checkIn b \<and> checkIn b \<le> endOfMonth (2026,3))
       [mkBooking ''A1'' (2026,3,20) (2026,3,23) 300 (2026,2,28) ''UPCOMING''])) \<and>
   sum_list (map totalPrice (filter (\<lambda>b.
       status b \<noteq> ''CANCELED'' \<and> (''A1'' = ''ALL'' \<or> room b = ''A1'') \<and>
       startOfMonth (2026,3) \<le> checkIn b \<and> checkIn b \<le> endOfMonth (2026,3))
       [mkBooking ''A1'' (2026,3,20) (2026,3,23) 300 (2026,2,28) ''UPCOMING''])) = 300"
proof -
  have v: "\<forall>b \<in> set [mkBooking ''A1'' (2026,3,20) (2026,3,23) 300 (2026,2,28) ''UPCOMING''].
      checkIn b < checkOut b"
    by (simp add: mkBooking_def)
  have m: "\<lparr>month = (2026,3), revenue = 300, fillRate = 300 / 31\<rparr> \<in> set (monthlyStats
      \<lparr>roomStats = [\<lparr>roomId = ''A1'', RoomStat.totalNights = 3,
               RoomStat.totalRevenue = 300, RoomStat.occupancyRate = 0\<rparr>],
        totalRevenue = 300, totalNights = 3, bookingCount = 1,
        monthlyStats = [\<lparr>month = (2026,2), revenue = 0, fillRate = 0\<rparr>,
                        \<lparr>month = (2026,3), revenue = 300, fillRate = 300 / 31\<rparr>]\<rparr>)"
    by simp
  have w: "validDate (2026,2,27)" "validDate (2026,3,2)"
    by (simp_all add: validDate_def getDaysInMonth_def)
  from w monthly_revenue_by_check_in[OF w v created_basis_example m]
  show ?thesis
    by (simp add: mkBooking_def startOfMonth_def endOfMonth_def getDaysInMonth_def)
qed

text \<open>
  The claim as stated fails for the basis \<^const>\<open>created\<close>: a booking created on 2026-02-28
  for a stay from 2026-03-20 counts toward the revenue of March, not of February.
\<close>

theorem monthly_revenue_by_check_in_counterexample:
  "reportData DateFnsV3
     [mkBooking ''A1'' (2026,3,20) (2026,3,23) 300 (2026,2,28) ''UPCOMING'']
     (2026,2,27) (2026,3,2) ''A1'' created [\<lparr>id' = ''A1'', name' = ''A1''\<rparr>] =
   Inr \<lparr>roomStats = [\<lparr>roomId = ''A1'', RoomStat.totalNights = 3,
               RoomStat.totalRevenue = 300, RoomStat.occupancyRate = 0\<rparr>],
        totalRevenue = 300, totalNights = 3, bookingCount = 1,
        monthlyStats = [\<lparr>month = (2026,2), revenue = 0, fillRate = 0\<rparr>,
                        \<lparr>month = (2026,3), revenue = 300, fillRate = 300 / 31\<rparr>]\<rparr> \<and>
   createdDate (createdAt (mkBooking ''A1'' (2026,3,20) (2026,3,23) 300 (2026,2,28) ''UPCOMING''))
     = (2026,2,28)"
  by (simp add: created_basis_example) (simp add: mkBooking_def createdDate_def)


section \<open>Pages of bookings\<close>

lemma requireAuth_ok: "user context \<noteq> None \<Longrightarrow> requireAuth context = Inr context"
  by (simp add: requireAuth_def)

text \<open>
  C9 (as the code has it). For an authenticated request, \<^const>\<open>getBookings\<close> returns the
  matching rows in the requested order, from position \<^verbatim>\<open>offset\<close>, at most
  \<^verbatim>\<open>min(pageSize, 500)\<close> of them, each normalized: the page has
  \<^verbatim>\<open>min(min(pageSize, 500), length - offset)\<close> elements, and an offset at or beyond the
  number of matching rows gives the empty list and no error.
\<close>

theorem pagination_capped_at_500:
  fixes ctx :: AppContext
  defines "ordered sortBy sortOrder flt \<equiv>
     orderBy (prisma ctx) (case sortBy of None \<Rightarrow> ''checkIn'' | Some f \<Rightarrow> f)
       (if toLowerCase (case sortOrder of None \<Rightarrow> ''desc'' | Some d \<Rightarrow> d) = ''asc''
        then ''asc'' else ''desc'')
       (filter (bookingsWhere ctx flt) (booking (prisma ctx)))"
  assumes auth: "user ctx \<noteq> None"
  shows "getBookings ctx flt (Some pageSize) (Some offset) sortBy sortOrder =
      Inr (map normalizeBooking
        (take (min pageSize 500) (drop offset (ordered sortBy sortOrder flt)))) \<and>
    length (take (min pageSize 500) (drop offset (ordered sortBy sortOrder flt))) =
      min (min pageSize 500) (length (ordered sortBy sortOrder flt) - offset) \<and>
    (length (ordered sortBy sortOrder flt) \<le> offset \<longrightarrow>
      getBookings ctx flt (Some pageSize) (Some offset) sortBy sortOrder = Inr [])"
  using auth
  by (simp add: getBookings_def findMany_def requireAuth_ok ordered_def Let_def)

lemma example_rows_sorted:
  "orderBy (prisma (mkContext rows [])) f d xs =
     (if d = ''asc'' then sort_key checkIn xs else rev (sort_key checkIn xs))"
  by (simp add: mkContext_def)

theorem pagination_capped_at_500_witness:
  "getBookings
     (mkContext
        [mkRow ''A1'' (newDate 2026 2 10) (newDate 2026 2 13) 300 100 (newDate 2026 2 1) (Some ''upcoming''),
         mkRow ''A2'' (newDate 2026 2 12) (newDate 2026 2 14) 200 0 (newDate 2026 2 2) (Some ''canceled''),
         mkRow ''A3'' (newDate 2026 2 15) (newDate 2026 2 16) 100 0 (newDate 2026 2 3) None] [])
     None (Some 1) (Some 1) None None =
   Inr [normalizeBooking
     (mkRow ''A2'' (newDate 2026 2 12) (newDate 2026 2 14) 200 0 (newDate 2026 2 2) (Some ''canceled''))] \<and>
   getBookings
     (mkContext
        [mkRow ''A1'' (newDate 2026 2 10) (newDate 2026 2 13) 300 100 (newDate 2026 2 1) (Some ''upcoming''),
         mkRow ''A2'' (newDate 2026 2 12) (newDate 2026 2 14) 200 0 (newDate 2026 2 2) (Some ''canceled''),
         mkRow ''A3'' (newDate 2026 2 15) (newDate 2026 2 16) 100 0 (newDate 2026 2 3) None] [])
     None (Some 1) (Some 3) None None = Inr []"
proof -
  have auth: "user (mkContext rows []) \<noteq> None" for rows by (simp add: mkContext_def)
  have nd: "newDate 2026 2 10 < newDate 2026 2 12" "newDate 2026 2 12 < newDate 2026 2 15"
    "newDate 2026 2 10 < newDate 2026 2 15"
    by (simp_all add: newDate_def monthOfIndex_def msPerDay_def)
  show ?thesis
    using pagination_capped_at_500[OF auth, of _ None 1 1 None None]
      pagination_capped_at_500[OF auth, of _ None 1 3 None None] nd
    by (simp add: mkContext_def bookingsWhere_def tenantMatches_def mkRow_def toLowerCase_def)
qed

text \<open>
  The claim as stated fails for a page size above 500: of 600 matching rows a page of size
  600 at offset 0 holds 500.
\<close>

theorem pagination_capped_at_500_counterexample:
  "map_sum id length
     (getBookings
        (mkContext (replicate 600
           (mkRow ''A1'' (newDate 2026 2 10) (newDate 2026 2 13) 300 100 (newDate 2026 2 1) (Some ''upcoming''))) [])
        None (Some 600) (Some 0) None None) = Inr 500 \<and>
   min (600::nat) (length (replicate 600
      (mkRow ''A1'' (newDate 2026 2 10) (newDate 2026 2 13) 300 100 (newDate 2026 2 1) (Some ''upcoming''))) - 0) = 600"
proof -
  have auth: "user (mkContext rows []) \<noteq> None" for rows by (simp add: mkContext_def)
  have rows: "booking (prisma (mkContext rows [])) = rows" for rows by (simp add: mkContext_def)
  have w: "bookingsWhere (mkContext rows []) None
      (mkRow ''A1'' (newDate 2026 2 10) (newDate 2026 2 13) 300 100 (newDate 2026 2 1) (Some ''upcoming''))" for rows
    by (simp add: bookingsWhere_def tenantMatches_def mkContext_def mkRow_def)
  have "filter (bookingsWhere (mkContext rows []) None) (replicate 600
      (mkRow ''A1'' (newDate 2026 2 10) (newDate 2026 2 13) 300 100 (newDate 2026 2 1) (Some ''upcoming''))) =
      replicate 600 (mkRow ''A1'' (newDate 2026 2 10) (newDate 2026 2 13) 300 100 (newDate 2026 2 1) (Some ''upcoming''))" for rows
    using w[of rows] by (simp add: filter_replicate)
  then show ?thesis
    by (simp add: getBookings_def findMany_def requireAuth_ok[OF auth] rows example_rows_sorted
        Let_def)
qed


section \<open>Status normalization\<close>

lemma status_normalizeBooking: "status (normalizeBooking r) = normalizeStatus (status r)"
  by (simp add: normalizeBooking_def)

lemma toUpperCase_empty: "(toUpperCase s = []) = (s = [])"
  by (simp add: toUpperCase_def)

lemma set_findMany:
  assumes "\<And>f d xs. set (orderBy db f d xs) \<subseteq> set xs"
  shows "set (findMany db wh f d skip tk) \<subseteq> set (booking db)"
proof -
  have "set (drop skip (orderBy db f d (filter wh (booking db)))) \<subseteq> set (booking db)"
    using assms[of f d "filter wh (booking db)"] set_drop_subset[of skip "orderBy db f d (filter wh (booking db))"]
    by auto
  moreover have "set (take n xs) \<subseteq> set xs" for n and xs :: "ServerBooking list"
    by (rule set_take_subset)
  ultimately show ?thesis
    by (cases tk) (auto simp: findMany_def Let_def dest: in_set_takeD)
qed

lemma normalized_rows:
  assumes "\<And>f d xs. set (orderBy db f d xs) \<subseteq> set xs"
    and "bs = map normalizeBooking (findMany db wh f d skip tk)"
  shows "\<forall>b \<in> set bs. \<exists>r \<in> set (booking db). b = normalizeBooking r"
proof
  fix b assume "b \<in> set bs"
  with assms(2) obtain r where r: "r \<in> set (findMany db wh f d skip tk)" "b = normalizeBooking r"
    by auto
  from r(1) set_findMany[OF assms(1), of wh f d skip tk] have "r \<in> set (booking db)"
    by (rule subsetD[rotated])
  with r(2) show "\<exists>r \<in> set (booking db). b = normalizeBooking r" by blast
qed

text \<open>
  C10. For an authenticated request and a database whose sort returns rows it was given,
  every booking returned by \<^const>\<open>getBookings\<close>, \<^const>\<open>getBooking\<close>,
  \<^const>\<open>getBookingsByDateRange\<close> and \<^const>\<open>getBookingsByRoom\<close> is a stored row passed
  through \<^const>\<open>normalizeBooking\<close>, whose status is the uppercase form of the stored one,
  and \<^verbatim>\<open>UPCOMING\<close> when the stored status is absent (or the empty string, which is
  falsy); a status stored as \<^verbatim>\<open>canceled\<close> is returned as \<^verbatim>\<open>CANCELED\<close>.
\<close>

theorem status_normalized_by_queries:
  assumes auth: "user ctx \<noteq> None"
    and sorted: "\<And>f d xs. set (orderBy (prisma ctx) f d xs) \<subseteq> set xs"
  shows "(\<forall>bs. getBookings ctx flt limit offset sortBy sortOrder = Inr bs \<longrightarrow>
            (\<forall>b \<in> set bs. \<exists>r \<in> set (booking (prisma ctx)). b = normalizeBooking r)) \<and>
         (\<forall>b. getBooking ctx ident = Inr b \<longrightarrow>
            (\<exists>r \<in> set (booking (prisma ctx)). b = normalizeBooking r)) \<and>
         (\<forall>bs. getBookingsByDateRange ctx startDate endDate = Inr bs \<longrightarrow>
            (\<forall>b \<in> set bs. \<exists>r \<in> set (booking (prisma ctx)). b = normalizeBooking r)) \<and>
         (\<forall>bs. getBookingsByRoom ctx roomArg = Inr bs \<longrightarrow>
            (\<forall>b \<in> set bs. \<exists>r \<in> set (booking (prisma ctx)). b = normalizeBooking r)) \<and>
         status (normalizeBooking r) =
           (case status r of
              None \<Rightarrow> ''UPCOMING''
            | Some s \<Rightarrow> if s = [] then ''UPCOMING'' else toUpperCase s) \<and>
         toUpperCase ''canceled'' = ''CANCELED''"
proof (intro conjI allI impI)
  fix bs assume "getBookings ctx flt limit offset sortBy sortOrder = Inr bs"
  then obtain f d skip tk where
    "bs = map normalizeBooking (findMany (prisma ctx) (bookingsWhere ctx flt) f d skip tk)"
    using auth by (auto simp: getBookings_def requireAuth_ok Let_def)
  then show "\<forall>b \<in> set bs. \<exists>r \<in> set (booking (prisma ctx)). b = normalizeBooking r"
    by (rule normalized_rows[OF sorted])
next
  fix b assume "getBooking ctx ident = Inr b"
  then obtain r where
    "find (\<lambda>b. bookingId b = ident \<and> tenantMatches ctx b) (booking (prisma ctx)) = Some r"
    "b = normalizeBooking r"
    using auth by (auto simp: getBooking_def requireAuth_ok split: option.splits)
  then show "\<exists>r \<in> set (booking (prisma ctx)). b = normalizeBooking r"
    by (auto simp: find_Some_iff)
next
  fix bs assume "getBookingsByDateRange ctx startDate endDate = Inr bs"
  then obtain wh f d skip tk where
    "bs = map normalizeBooking (findMany (prisma ctx) wh f d skip tk)"
    using auth by (auto simp: getBookingsByDateRange_def requireAuth_ok Let_def split: if_splits)
  then show "\<forall>b \<in> set bs. \<exists>r \<in> set (booking (prisma ctx)). b = normalizeBooking r"
    by (rule normalized_rows[OF sorted])
next
  fix bs assume "getBookingsByRoom ctx roomArg = Inr bs"
  then obtain wh f d skip tk where
    "bs = map normalizeBooking (findMany (prisma ctx) wh f d skip tk)"
    using auth by (auto simp: getBookingsByRoom_def requireAuth_ok Let_def)
  then show "\<forall>b \<in> set bs. \<exists>r \<in> set (booking (prisma ctx)). b = normalizeBooking r"
    by (rule normalized_rows[OF sorted])
next
  show "status (normalizeBooking r) =
           (case status r of
              None \<Rightarrow> ''UPCOMING''
            | Some s \<Rightarrow> if s = [] then ''UPCOMING'' else toUpperCase s)"
    by (simp add: status_normalizeBooking normalizeStatus_def toUpperCase_empty split: option.splits)
next
  show "toUpperCase ''canceled'' = ''CANCELED''"
    by code_simp
qed

theorem status_normalized_by_queries_witness:
  "getBookingsByRoom
     (mkContext
        [mkRow ''A1'' (newDate 2026 2 10) (newDate 2026 2 13) 300 100 (newDate 2026 2 1) (Some ''canceled''),
         mkRow ''A1'' (newDate 2026 2 15) (newDate 2026 2 16) 100 0 (newDate 2026 2 3) None] [])
     ''A1'' =
   Inr [normalizeBooking (mkRow ''A1'' (newDate 2026 2 15) (newDate 2026 2 16) 100 0 (newDate 2026 2 3) None),
        normalizeBooking (mkRow ''A1'' (newDate 2026 2 10) (newDate 2026 2 13) 300 100 (newDate 2026 2 1) (Some ''canceled''))] \<and>
   status (normalizeBooking (mkRow ''A1'' (newDate 2026 2 15) (newDate 2026 2 16) 100 0 (newDate 2026 2 3) None))
     = ''UPCOMING'' \<and>
   status (normalizeBooking (mkRow ''A1'' (newDate 2026 2 10) (newDate 2026 2 13) 300 100 (newDate 2026 2 1) (Some ''canceled'')))
     = ''CANCELED''"
proof -
  have auth: "user (mkContext rows []) \<noteq> None" for rows by (simp add: mkContext_def)
  have sorted: "set (orderBy (prisma (mkContext rows [])) f d xs) \<subseteq> set xs" for rows f d xs
    by (simp add: mkContext_def)
  have nd: "newDate 2026 2 10 < newDate 2026 2 15"
    by (simp add: newDate_def monthOfIndex_def msPerDay_def)
  have q: "getBookingsByRoom
     (mkContext
        [mkRow ''A1'' (newDate 2026 2 10) (newDate 2026 2 13) 300 100 (newDate 2026 2 1) (Some ''canceled''),
         mkRow ''A1'' (newDate 2026 2 15) (newDate 2026 2 16) 100 0 (newDate 2026 2 3) None] [])
     ''A1'' =
   Inr [normalizeBooking (mkRow ''A1'' (newDate 2026 2 15) (newDate 2026 2 16) 100 0 (newDate 2026 2 3) None),
        normalizeBooking (mkRow ''A1'' (newDate 2026 2 10) (newDate 2026 2 13) 300 100 (newDate 2026 2 1) (Some ''canceled''))]"
    using nd
    by (simp add: getBookingsByRoom_def requireAuth_def findMany_def mkContext_def
        tenantMatches_def mkRow_def Let_def)
  from status_normalized_by_queries[OF auth sorted,
      of "[mkRow ''A1'' (newDate 2026 2 10) (newDate 2026 2 13) 300 100 (newDate 2026 2 1) (Some ''canceled''),
         mkRow ''A1'' (newDate 2026 2 15) (newDate 2026 2 16) 100 0 (newDate 2026 2 3) None]"]
  have st: "status (normalizeBooking r) =
           (case status r of None \<Rightarrow> ''UPCOMING''
            | Some s \<Rightarrow> if s = [] then ''UPCOMING'' else toUpperCase s)"
    and up: "toUpperCase ''canceled'' = ''CANCELED''"
    for r :: ServerBooking
    by blast+
  have "status (normalizeBooking (mkRow ''A1'' (newDate 2026 2 15) (newDate 2026 2 16) 100 0 (newDate 2026 2 3) None))
     = ''UPCOMING''"
    by (simp add: st) (simp add: mkRow_def)
  moreover have "status (normalizeBooking (mkRow ''A1'' (newDate 2026 2 10) (newDate 2026 2 13) 300 100 (newDate 2026 2 1) (Some ''canceled'')))
     = ''CANCELED''"
    by (simp add: st) (simp add: mkRow_def up)
  ultimately show ?thesis using q by simp
qed


section \<open>The occupancy rate of a room\<close>

lemma finite_window: "finite (window c e)"
proof -
  have "window c e \<subseteq> {fst c..fst e} \<times> {1..12} \<times> {1..31}"
  proof
    fix d assume d: "d \<in> window c e"
    obtain y m dd where dd: "d = (y, m, dd)" by (cases d) auto
    obtain cy cm cd where c: "c = (cy, cm, cd)" by (cases c) auto
    obtain ey em ed where e: "e = (ey, em, ed)" by (cases e) auto
    from d have "cy \<le> y" "y \<le> ey"
      unfolding window_def dd c e by (auto simp: date_le_iff)
    moreover from d getDaysInMonth_le_31[of y m] have "1 \<le> m" "m \<le> 12" "1 \<le> dd" "dd \<le> 31"
      unfolding window_def dd by (auto simp: validDate_def)
    ultimately show "d \<in> {fst c..fst e} \<times> {1..12} \<times> {1..31}"
      by (simp add: dd c e)
  qed
  then show ?thesis by (rule finite_subset) simp
qed

lemma window_empty: "\<not> c \<le> e \<Longrightarrow> window c e = {}"
  by (auto simp: window_def)

lemma window_step:
  assumes "validDate c" "c \<le> e"
  shows "window c e = insert c (window (addDays1 c) e)" and "c \<notin> window (addDays1 c) e"
proof -
  show "window c e = insert c (window (addDays1 c) e)"
  proof (intro set_eqI iffI)
    fix d assume "d \<in> window c e"
    then have d: "validDate d" "c \<le> d" "d \<le> e" by (simp_all add: window_def)
    show "d \<in> insert c (window (addDays1 c) e)"
    proof (cases "d = c")
      case False
      with d have "c < d" by simp
      from addDays1_least[OF assms(1) d(1) this] d show ?thesis by (simp add: window_def)
    qed simp
  next
    fix d assume "d \<in> insert c (window (addDays1 c) e)"
    then consider "d = c" | "validDate d" "addDays1 c \<le> d" "d \<le> e"
      by (auto simp: window_def)
    then show "d \<in> window c e"
    proof cases
      case 1 with assms show ?thesis by (simp add: window_def)
    next
      case 2
      from addDays1_greater[of c] 2(2) have "c \<le> d" by simp
      with 2 show ?thesis by (simp add: window_def)
    qed
  qed
  from addDays1_greater[of c] show "c \<notin> window (addDays1 c) e"
    by (auto simp: window_def)
qed

lemma occupiedDaysLoop_card:
  "validDate c \<Longrightarrow>
   occupiedDaysLoop bs c e n = n + int (card {d \<in> window c e. isOccupied bs d})"
proof (induction bs c e n rule: occupiedDaysLoop.induct)
  case (1 bs c e n)
  show ?case
  proof (cases "c \<le> e")
    case False
    then show ?thesis by (simp add: occupiedDaysLoop_stop window_empty)
  next
    case True
    let ?W = "window (addDays1 c) e"
    have fin: "finite {d \<in> ?W. isOccupied bs d}" using finite_window by simp
    have notin: "c \<notin> {d \<in> ?W. isOccupied bs d}" using window_step(2)[OF "1.prems" True] by simp
    have split: "{d \<in> window c e. isOccupied bs d} =
        (if isOccupied bs c then insert c {d \<in> ?W. isOccupied bs d} else {d \<in> ?W. isOccupied bs d})"
      using window_step(1)[OF "1.prems" True] window_step(2)[OF "1.prems" True] by auto
    have "occupiedDaysLoop bs c e n =
        occupiedDaysLoop bs (addDays1 c) e (if isOccupied bs c then n + 1 else n)"
      using True by (rule occupiedDaysLoop_step)
    also have "\<dots> = (if isOccupied bs c then n + 1 else n) + int (card {d \<in> ?W. isOccupied bs d})"
      using "1.IH"[OF True validDate_addDays1[OF "1.prems"]] .
    also have "\<dots> = n + int (card {d \<in> window c e. isOccupied bs d})"
      using card_insert_disjoint[OF fin notin] by (simp add: split)
    finally show ?thesis .
  qed
qed

lemma card_window:
  "validDate c \<Longrightarrow> validDate e \<Longrightarrow>
   int (card (window c e)) = (if c \<le> e then toDays e - toDays c + 1 else 0)"
proof (induction "[] :: ClientBooking list" c e "0::int" rule: occupiedDaysLoop.induct)
  case (1 c e)
  show ?case
  proof (cases "c \<le> e")
    case False
    then show ?thesis by (simp add: window_empty)
  next
    case True
    have ih: "int (card (window (addDays1 c) e)) =
        (if addDays1 c \<le> e then toDays e - toDays (addDays1 c) + 1 else 0)"
      using "1.hyps"[OF True _ validDate_addDays1[OF "1.prems"(1)] "1.prems"(2)]
      by (simp add: isOccupied_def)
    have card: "int (card (window c e)) = 1 + int (card (window (addDays1 c) e))"
      using window_step[OF "1.prems"(1) True] finite_window[of "addDays1 c" e] by simp
    show ?thesis
    proof (cases "addDays1 c \<le> e")
      case True
      with \<open>c \<le> e\<close> show ?thesis by (simp add: card ih toDays_addDays1[OF "1.prems"(1)])
    next
      case False
      have "\<not> c < e" using addDays1_least[OF "1.prems"] False by blast
      with True have ce: "c = e" by simp
      from False ih have "int (card (window (addDays1 c) e)) = 0" by simp
      with card have "int (card (window c e)) = 1" by simp
      then show ?thesis using True by (simp add: ce)
    qed
  qed
qed


lemma occupancyRate_roomStat:
  "RoomStat.occupancyRate (roomStat flt rs re cfg) =
     (if differenceInDays re rs + 1 > 0
      then of_int (occupiedDaysLoop (filter (\<lambda>b. room b = id' cfg) flt) rs re 0) /
             of_int (differenceInDays re rs + 1) * 100
      else 0)"
  by (simp add: roomStat_def Let_def)

text \<open>
  What \<^const>\<open>roomStat\<close> computes, for valid report dates: the day loop is run on the
  room's bookings taken from \<^const>\<open>filtered\<close>, so the rate is the number of calendar days
  of the window on which one of those bookings is in house, divided by
  \<^verbatim>\<open>differenceInDays(end, start) + 1\<close>, times 100, and 0 when that number of days is not
  positive. A booking that \<^const>\<open>filtered\<close> leaves out (its check-in date, or under the
  basis \<^const>\<open>created\<close> its creation date, is outside the window) never reaches the loop.
\<close>

lemma occupancyRate_over_selected_bookings:
  assumes vs: "validDate reportStartDate" and ve: "validDate reportEndDate"
  shows
    "RoomStat.occupancyRate
       (roomStat (filtered bookings reportStartDate reportEndDate reportRoomFilter reportType)
          reportStartDate reportEndDate roomCfg) =
       (if differenceInDays reportEndDate reportStartDate + 1 > 0
        then of_int (int (card {d \<in> window reportStartDate reportEndDate.
               isOccupied (filter (\<lambda>b. room b = id' roomCfg)
                 (filtered bookings reportStartDate reportEndDate reportRoomFilter reportType)) d})) /
             of_int (differenceInDays reportEndDate reportStartDate + 1) * 100
        else 0) \<and>
     (reportStartDate \<le> reportEndDate \<longrightarrow>
        differenceInDays reportEndDate reportStartDate + 1 =
          int (card (window reportStartDate reportEndDate))) \<and>
     (reportEndDate < reportStartDate \<longrightarrow>
        differenceInDays reportEndDate reportStartDate + 1 \<le> 0 \<and>
        RoomStat.occupancyRate
          (roomStat (filtered bookings reportStartDate reportEndDate reportRoomFilter reportType)
             reportStartDate reportEndDate roomCfg) = 0) \<and>
     (filter (\<lambda>b. room b = id' roomCfg)
        (filtered bookings reportStartDate reportEndDate reportRoomFilter reportType) = [] \<longrightarrow>
        RoomStat.occupancyRate
          (roomStat (filtered bookings reportStartDate reportEndDate reportRoomFilter reportType)
             reportStartDate reportEndDate roomCfg) = 0) \<and>
     (reportStartDate \<le> reportEndDate \<and>
      (\<exists>b \<in> set (filtered bookings reportStartDate reportEndDate reportRoomFilter reportType).
         room b = id' roomCfg \<and> checkIn b \<le> reportStartDate \<and> reportEndDate < checkOut b) \<longrightarrow>
        RoomStat.occupancyRate
          (roomStat (filtered bookings reportStartDate reportEndDate reportRoomFilter reportType)
             reportStartDate reportEndDate roomCfg) = 100)"
proof -
  let ?flt = "filtered bookings reportStartDate reportEndDate reportRoomFilter reportType"
  let ?rb = "filter (\<lambda>b. room b = id' roomCfg) ?flt"
  let ?n = "differenceInDays reportEndDate reportStartDate + 1"
  let ?rate = "RoomStat.occupancyRate (roomStat ?flt reportStartDate reportEndDate roomCfg)"
  have loop: "occupiedDaysLoop ?rb reportStartDate reportEndDate 0 =
      int (card {d \<in> window reportStartDate reportEndDate. isOccupied ?rb d})"
    using occupiedDaysLoop_card[OF vs, of ?rb reportEndDate 0] by simp
  have formula: "?rate =
      (if ?n > 0
       then of_int (int (card {d \<in> window reportStartDate reportEndDate. isOccupied ?rb d})) /
            of_int ?n * 100
       else 0)"
    by (simp only: occupancyRate_roomStat loop)
  have days: "?n = int (card (window reportStartDate reportEndDate))"
    if "reportStartDate \<le> reportEndDate"
    using card_window[OF vs ve] that by (simp add: differenceInDays_def)
  have reversed: "?n \<le> 0" if "reportEndDate < reportStartDate"
    using toDays_strict_mono[OF ve vs that] by (simp add: differenceInDays_def)
  have none: "?rate = 0" if "?rb = []"
  proof -
    have "{d \<in> window reportStartDate reportEndDate. isOccupied ?rb d} = {}"
      using that by (simp add: isOccupied_def)
    then show ?thesis by (simp only: formula) simp
  qed
  have full: "?rate = 100"
    if le: "reportStartDate \<le> reportEndDate"
      and ex: "\<exists>b \<in> set ?flt. room b = id' roomCfg \<and> checkIn b \<le> reportStartDate \<and>
                 reportEndDate < checkOut b"
  proof -
    from ex obtain b where b: "b \<in> set ?rb" "checkIn b \<le> reportStartDate"
      "reportEndDate < checkOut b" by auto
    have "isOccupied ?rb d" if "d \<in> window reportStartDate reportEndDate" for d
    proof -
      from that have "reportStartDate \<le> d" "d \<le> reportEndDate" by (simp_all add: window_def)
      with b(2,3) have "checkIn b \<le> d \<and> d < checkOut b" by auto
      with b(1) show ?thesis unfolding isOccupied_def list_ex_iff by blast
    qed
    then have "{d \<in> window reportStartDate reportEndDate. isOccupied ?rb d} =
        window reportStartDate reportEndDate" by blast
    moreover have "?n > 0" using days[OF le] toDays_mono[OF vs ve le]
      by (simp add: differenceInDays_def)
    ultimately show ?thesis using days[OF le] by (simp only: formula) simp
  qed
  from reversed have rev0: "?rate = 0" if "reportEndDate < reportStartDate"
    using that by (simp only: formula) simp
  show ?thesis
    using formula days reversed rev0 none full by (intro conjI impI) blast+
qed

text \<open>
  C7. The rate is the share of occupied days only for stays that \<^const>\<open>filtered\<close> keeps.
  Room A1 is occupied on every day of the window from 2026-03-01 to 2026-03-03 by a stay
  from 2026-02-25 to 2026-03-05, and its occupancy rate under the basis \<^const>\<open>stay\<close> is 0,
  while the month series of the same report counts 4 nights of that stay in March and the
  server's occupancy report counts 4 occupied nights. A stay that covers the window
  exactly, from 2026-03-01 to 2026-03-04, created on 2026-02-20, gives the rate 0 under the
  basis \<^const>\<open>created\<close> and 100 under the basis \<^const>\<open>stay\<close>.
\<close>

theorem room_occupancy_skips_unselected_stays:
  "reportData DateFnsV3
     [mkBooking ''A1'' (2026,2,25) (2026,3,5) 800 (2026,1,10) ''UPCOMING'']
     (2026,3,1) (2026,3,3) ''A1'' stay [\<lparr>id' = ''A1'', name' = ''A1''\<rparr>] =
   Inr \<lparr>roomStats = [\<lparr>roomId = ''A1'', RoomStat.totalNights = 0,
               RoomStat.totalRevenue = 0, RoomStat.occupancyRate = 0\<rparr>],
        totalRevenue = 0, totalNights = 0, bookingCount = 0,
        monthlyStats = [\<lparr>month = (2026,3), revenue = 0, fillRate = 400 / 31\<rparr>]\<rparr> \<and>
   isOccupied [mkBooking ''A1'' (2026,2,25) (2026,3,5) 800 (2026,1,10) ''UPCOMING''] (2026,3,1) \<and>
   isOccupied [mkBooking ''A1'' (2026,2,25) (2026,3,5) 800 (2026,1,10) ''UPCOMING''] (2026,3,2) \<and>
   isOccupied [mkBooking ''A1'' (2026,2,25) (2026,3,5) 800 (2026,1,10) ''UPCOMING''] (2026,3,3) \<and>
   getOccupancyReport
     (mkContext [mkRow ''A1'' (newDate 2026 1 25) (newDate 2026 2 5) 800 0 (newDate 2026 0 10) (Some ''upcoming'')] [])
     (Some ''A1'') 2026 3 =
   Inr \<lparr>OccupancyReport.room = ''A1'', OccupancyReport.month = (2026, 3),
        OccupancyReport.totalNights = 31, occupiedNights = 4,
        OccupancyReport.occupancyRate = 129 / 10\<rparr> \<and>
   reportData DateFnsV3
     [mkBooking ''A1'' (2026,3,1) (2026,3,4) 300 (2026,2,20) ''UPCOMING'']
     (2026,3,1) (2026,3,3) ''A1'' created [\<lparr>id' = ''A1'', name' = ''A1''\<rparr>] =
   Inr \<lparr>roomStats = [\<lparr>roomId = ''A1'', RoomStat.totalNights = 0,
               RoomStat.totalRevenue = 0, RoomStat.occupancyRate = 0\<rparr>],
        totalRevenue = 0, totalNights = 0, bookingCount = 0,
        monthlyStats = [\<lparr>month = (2026,3), revenue = 300, fillRate = 300 / 31\<rparr>]\<rparr> \<and>
   reportData DateFnsV3
     [mkBooking ''A1'' (2026,3,1) (2026,3,4) 300 (2026,2,20) ''UPCOMING'']
     (2026,3,1) (2026,3,3) ''A1'' stay [\<lparr>id' = ''A1'', name' = ''A1''\<rparr>] =
   Inr \<lparr>roomStats = [\<lparr>roomId = ''A1'', RoomStat.totalNights = 3,
               RoomStat.totalRevenue = 300, RoomStat.occupancyRate = 100\<rparr>],
        totalRevenue = 300, totalNights = 3, bookingCount = 1,
        monthlyStats = [\<lparr>month = (2026,3), revenue = 300, fillRate = 300 / 31\<rparr>]\<rparr>"
proof -
  have ms: "[monthIndex (2026,3,1)..monthIndex (2026,3,3)] = [24314]"
    by (simp add: monthIndex_def upto_rec1)
  note eval = reportData_def eachMonthOfInterval_def filtered_def ms rooms_def monthOfIndex_def
    monthStat_def monthBookings_def monthRevenue_def monthOccupancy_def occupancyDays_def
    mkBooking_def createdDate_def cal_eval Let_def
  have stay_before: "reportData DateFnsV3
     [mkBooking ''A1'' (2026,2,25) (2026,3,5) 800 (2026,1,10) ''UPCOMING'']
     (2026,3,1) (2026,3,3) ''A1'' stay [\<lparr>id' = ''A1'', name' = ''A1''\<rparr>] =
   Inr \<lparr>roomStats = [\<lparr>roomId = ''A1'', RoomStat.totalNights = 0,
               RoomStat.totalRevenue = 0, RoomStat.occupancyRate = 0\<rparr>],
        totalRevenue = 0, totalNights = 0, bookingCount = 0,
        monthlyStats = [\<lparr>month = (2026,3), revenue = 0, fillRate = 400 / 31\<rparr>]\<rparr>"
    by (simp add: eval roomStat_no_bookings)
  have in_house:
    "isOccupied [mkBooking ''A1'' (2026,2,25) (2026,3,5) 800 (2026,1,10) ''UPCOMING''] (2026,3,1)"
    "isOccupied [mkBooking ''A1'' (2026,2,25) (2026,3,5) 800 (2026,1,10) ''UPCOMING''] (2026,3,2)"
    "isOccupied [mkBooking ''A1'' (2026,2,25) (2026,3,5) 800 (2026,1,10) ''UPCOMING''] (2026,3,3)"
    by (simp_all add: isOccupied_def mkBooking_def)
  have server: "getOccupancyReport
     (mkContext [mkRow ''A1'' (newDate 2026 1 25) (newDate 2026 2 5) 800 0 (newDate 2026 0 10) (Some ''upcoming'')] [])
     (Some ''A1'') 2026 3 =
   Inr \<lparr>OccupancyReport.room = ''A1'', OccupancyReport.month = (2026, 3),
        OccupancyReport.totalNights = 31, occupiedNights = 4,
        OccupancyReport.occupancyRate = 129 / 10\<rparr>"
    by code_simp
  have created_outside: "reportData DateFnsV3
     [mkBooking ''A1'' (2026,3,1) (2026,3,4) 300 (2026,2,20) ''UPCOMING'']
     (2026,3,1) (2026,3,3) ''A1'' created [\<lparr>id' = ''A1'', name' = ''A1''\<rparr>] =
   Inr \<lparr>roomStats = [\<lparr>roomId = ''A1'', RoomStat.totalNights = 0,
               RoomStat.totalRevenue = 0, RoomStat.occupancyRate = 0\<rparr>],
        totalRevenue = 0, totalNights = 0, bookingCount = 0,
        monthlyStats = [\<lparr>month = (2026,3), revenue = 300, fillRate = 300 / 31\<rparr>]\<rparr>"
    by (simp add: eval roomStat_no_bookings)
  have stay_selected: "reportData DateFnsV3
     [mkBooking ''A1'' (2026,3,1) (2026,3,4) 300 (2026,2,20) ''UPCOMING'']
     (2026,3,1) (2026,3,3) ''A1'' stay [\<lparr>id' = ''A1'', name' = ''A1''\<rparr>] =
   Inr \<lparr>roomStats = [\<lparr>roomId = ''A1'', RoomStat.totalNights = 3,
               RoomStat.totalRevenue = 300, RoomStat.occupancyRate = 100\<rparr>],
        totalRevenue = 300, totalNights = 3, bookingCount = 1,
        monthlyStats = [\<lparr>month = (2026,3), revenue = 300, fillRate = 300 / 31\<rparr>]\<rparr>"
    by (simp add: eval roomStat_def isOccupied_def occupiedDaysLoop_step occupiedDaysLoop_stop
        addDays1_def)
  from stay_before in_house server created_outside stay_selected show ?thesis
    by (intro conjI)
qed


section \<open>The fill rate of a month\<close>

lemma occupancyDays_card: "occupancyDays mo b = int (card (clampedNights mo b))"
  by (simp add: occupancyDays_def clampedNights_def differenceInDays_def Let_def)

lemma valid_month_bounds:
  assumes "1 \<le> snd mo" "snd mo \<le> 12"
  shows "validDate (startOfMonth mo)" and "validDate (endOfMonth mo)"
    and "toDays (endOfMonth mo) - toDays (startOfMonth mo) = getDaysInMonth (fst mo) (snd mo) - 1"
  using assms getDaysInMonth_ge_28[of "fst mo" "snd mo"]
  by (cases mo; simp add: startOfMonth_def endOfMonth_def validDate_def toDays_def)+

lemma clampedNights_subset:
  assumes mo: "1 \<le> snd mo" "snd mo \<le> 12"
    and v: "validDate (checkIn b)" "validDate (checkOut b)"
  shows "clampedNights mo b \<subseteq> {toDays (startOfMonth mo) ..< toDays (endOfMonth mo)}"
proof -
  let ?s = "if checkIn b < startOfMonth mo then startOfMonth mo else checkIn b"
  let ?e = "if checkOut b > endOfMonth mo then endOfMonth mo else checkOut b"
  note vm = valid_month_bounds(1,2)[OF mo]
  have vs: "validDate ?s" and ve: "validDate ?e" using v vm by simp_all
  have "startOfMonth mo \<le> ?s" by auto
  from toDays_mono[OF vm(1) vs this] have 1: "toDays (startOfMonth mo) \<le> toDays ?s" .
  have "?e \<le> endOfMonth mo" by auto
  from toDays_mono[OF ve vm(2) this] have 2: "toDays ?e \<le> toDays (endOfMonth mo)" .
  from 1 2 show ?thesis unfolding clampedNights_def by auto
qed

lemma clampedNights_disjoint:
  assumes mo: "1 \<le> snd mo" "snd mo \<le> 12"
    and vb: "validDate (checkIn b)" "validDate (checkOut b)"
    and vc: "validDate (checkIn c)" "validDate (checkOut c)"
    and apart: "checkOut b \<le> checkIn c"
  shows "clampedNights mo b \<inter> clampedNights mo c = {}"
proof -
  let ?e = "if checkOut b > endOfMonth mo then endOfMonth mo else checkOut b"
  let ?s = "if checkIn c < startOfMonth mo then startOfMonth mo else checkIn c"
  note vm = valid_month_bounds(1,2)[OF mo]
  have ve: "validDate ?e" and vs: "validDate ?s" using vb vc vm by simp_all
  have "?e \<le> checkOut b" by auto
  also note apart
  also have "checkIn c \<le> ?s" by auto
  finally have "?e \<le> ?s" .
  from toDays_mono[OF ve vs this] show ?thesis unfolding clampedNights_def by auto
qed

lemma noDoubleBooking_filter: "noDoubleBooking bs \<Longrightarrow> noDoubleBooking (filter P bs)"
  by (induction bs) auto

lemma sum_clampedNights_one_room:
  assumes mo: "1 \<le> snd mo" "snd mo \<le> 12"
  shows "(\<forall>b \<in> set bs. validDate (checkIn b) \<and> validDate (checkOut b) \<and> room b = r) \<Longrightarrow>
    noDoubleBooking bs \<Longrightarrow>
    sum_list (map (occupancyDays mo) bs) = int (card (\<Union>b \<in> set bs. clampedNights mo b))"
proof (induction bs)
  case Nil
  then show ?case by simp
next
  case (Cons b bs)
  let ?U = "\<Union>c \<in> set bs. clampedNights mo c"
  have fin: "finite (clampedNights mo b)" "finite ?U"
    by (simp_all add: clampedNights_def)
  have "clampedNights mo b \<inter> clampedNights mo c = {}" if "c \<in> set bs" for c
  proof -
    from Cons.prems that have vb: "validDate (checkIn b)" "validDate (checkOut b)"
      and vc: "validDate (checkIn c)" "validDate (checkOut c)"
      and "room c = room b" by auto
    with Cons.prems(2) that have "checkOut b \<le> checkIn c \<or> checkOut c \<le> checkIn b" by auto
    then show ?thesis
      using clampedNights_disjoint[OF mo vb vc] clampedNights_disjoint[OF mo vc vb] by blast
  qed
  then have disj: "clampedNights mo b \<inter> ?U = {}" by blast
  have ih: "sum_list (map (occupancyDays mo) bs) = int (card ?U)"
    using Cons.IH Cons.prems by auto
  have "sum_list (map (occupancyDays mo) (b # bs)) =
      int (card (clampedNights mo b)) + int (card ?U)"
    by (simp add: ih occupancyDays_card)
  also have "\<dots> = int (card (clampedNights mo b \<union> ?U))"
    using card_Un_disjoint[OF fin disj] by simp
  finally show ?case by simp
qed

lemma occupancy_one_room_bound:
  assumes mo: "1 \<le> snd mo" "snd mo \<le> 12"
    and bs: "\<forall>b \<in> set bs. validDate (checkIn b) \<and> validDate (checkOut b) \<and> room b = r"
    and nd: "noDoubleBooking bs"
  shows "sum_list (map (occupancyDays mo) bs) \<le> getDaysInMonth (fst mo) (snd mo) - 1"
proof -
  let ?W = "{toDays (startOfMonth mo) ..< toDays (endOfMonth mo)}"
  have "(\<Union>b \<in> set bs. clampedNights mo b) \<subseteq> ?W"
    using clampedNights_subset[OF mo] bs by blast
  then have "card (\<Union>b \<in> set bs. clampedNights mo b) \<le> card ?W"
    by (rule card_mono[rotated]) simp
  moreover have "int (card ?W) = getDaysInMonth (fst mo) (snd mo) - 1"
  proof -
    have "toDays (endOfMonth mo) - toDays (startOfMonth mo) = getDaysInMonth (fst mo) (snd mo) - 1"
      by (rule valid_month_bounds(3)[OF mo])
    moreover have "28 \<le> getDaysInMonth (fst mo) (snd mo)" by (rule getDaysInMonth_ge_28)
    ultimately show ?thesis by simp
  qed
  moreover have "sum_list (map (occupancyDays mo) bs) =
      int (card (\<Union>b \<in> set bs. clampedNights mo b))"
    by (rule sum_clampedNights_one_room[OF mo bs nd])
  ultimately show ?thesis by linarith
qed

lemma sum_list_by_room:
  fixes f :: "ClientBooking \<Rightarrow> int"
  assumes "finite R"
  shows "(\<forall>b \<in> set bs. room b \<in> R) \<Longrightarrow>
    sum_list (map f bs) = (\<Sum>r \<in> R. sum_list (map f (filter (\<lambda>b. room b = r) bs)))"
proof (induction bs)
  case Nil
  then show ?case by simp
next
  case (Cons b bs)
  then have in_R: "room b \<in> R" by simp
  have "(\<Sum>r \<in> R. sum_list (map f (filter (\<lambda>c. room c = r) (b # bs)))) =
      (\<Sum>r \<in> R. (if room b = r then f b else 0) + sum_list (map f (filter (\<lambda>c. room c = r) bs)))"
    by (rule sum.cong) simp_all
  also have "\<dots> = (\<Sum>r \<in> R. if room b = r then f b else 0) +
      (\<Sum>r \<in> R. sum_list (map f (filter (\<lambda>c. room c = r) bs)))"
    by (rule sum.distrib)
  also have "(\<Sum>r \<in> R. if room b = r then f b else 0) = f b"
    using assms in_R by simp
  finally show ?case using Cons by simp
qed

lemma occupancy_bound:
  assumes mo: "1 \<le> snd mo" "snd mo \<le> 12"
    and fin: "finite R"
    and bs: "\<forall>b \<in> set bs. validDate (checkIn b) \<and> validDate (checkOut b) \<and> room b \<in> R"
    and nd: "noDoubleBooking bs"
  shows "sum_list (map (occupancyDays mo) bs) \<le> int (card R) * (getDaysInMonth (fst mo) (snd mo) - 1)"
proof -
  have "sum_list (map (occupancyDays mo) bs) =
      (\<Sum>r \<in> R. sum_list (map (occupancyDays mo) (filter (\<lambda>b. room b = r) bs)))"
    using bs by (intro sum_list_by_room[OF fin]) blast
  also have "\<dots> \<le> (\<Sum>r \<in> R. getDaysInMonth (fst mo) (snd mo) - 1)"
  proof (rule sum_mono)
    fix r assume "r \<in> R"
    have "\<forall>b \<in> set (filter (\<lambda>b. room b = r) bs).
        validDate (checkIn b) \<and> validDate (checkOut b) \<and> room b = r"
      using bs by simp
    from occupancy_one_room_bound[OF mo this noDoubleBooking_filter[OF nd]]
    show "sum_list (map (occupancyDays mo) (filter (\<lambda>b. room b = r) bs)) \<le>
        getDaysInMonth (fst mo) (snd mo) - 1" .
  qed
  also have "\<dots> = int (card R) * (getDaysInMonth (fst mo) (snd mo) - 1)" by simp
  finally show ?thesis .
qed


lemma months_of_interval:
  assumes "eachMonthOfInterval lib s e = Inr months" and "mo \<in> set months"
  shows "1 \<le> snd mo \<and> snd mo \<le> 12"
proof -
  from assms obtain i where "mo = monthOfIndex i"
    by (auto simp: eachMonthOfInterval_def split: if_splits DateFns.splits)
  then show ?thesis by (simp add: monthOfIndex_def)
qed

lemma monthStat_of_reportData:
  assumes "reportData lib bookings rs re flt rt tenantRooms = Inr r"
    and "ms \<in> set (monthlyStats r)"
  obtains mo where "ms = monthStat bookings flt tenantRooms mo" "1 \<le> snd mo" "snd mo \<le> 12"
proof -
  from assms(1) obtain months where
    m: "eachMonthOfInterval lib rs re = Inr months"
      "monthlyStats r = map (monthStat bookings flt tenantRooms) months"
    by (auto simp: reportData_def Let_def split: sum.splits)
  with assms(2) obtain mo where mo: "mo \<in> set months" "ms = monthStat bookings flt tenantRooms mo"
    by auto
  from months_of_interval[OF m(1) mo(1)] mo(2) that show ?thesis by blast
qed

lemma rooms_not_empty: "1 \<le> length (rooms tenantRooms)"
  by (simp add: rooms_def DEFAULT_ROOMS_def Suc_le_eq)

lemma fillRate_monthStat:
  assumes mo: "1 \<le> snd mo" "snd mo \<le> 12"
  shows "fillRate (monthStat bookings flt tenantRooms mo) =
    of_int (sum_list (map (occupancyDays mo) (monthBookings bookings flt mo))) /
    of_int (getDaysInMonth (fst mo) (snd mo) *
            (if flt = ''ALL'' then int (length (rooms tenantRooms)) else 1)) * 100"
  using valid_month_bounds(3)[OF mo] getDaysInMonth_ge_28[of "fst mo" "snd mo"]
  by (simp add: monthStat_def monthOccupancy_def fold_add_sum_list differenceInDays_def Let_def)

lemma occupancyDays_nonneg: "0 \<le> occupancyDays mo b"
  by (simp add: occupancyDays_card)

text \<open>
  C6 (as the code has it). Every month entry of the report has a fill rate that is not
  negative. It is at most 100 when the check-in and check-out dates are valid calendar
  dates, no two bookings of one room that are not canceled overlap, and, when no room is
  filtered, every booking that is not canceled is in one of the rooms the report counts.
\<close>

theorem fill_rate_range:
  assumes window: "validDate reportStartDate" "validDate reportEndDate"
    and rep: "reportData lib bookings reportStartDate reportEndDate reportRoomFilter reportType
      tenantRooms = Inr r"
    and ms: "ms \<in> set (monthlyStats r)"
  shows "0 \<le> fillRate ms \<and>
    ((\<forall>b \<in> set bookings. validDate (checkIn b) \<and> validDate (checkOut b)) \<and>
     noDoubleBooking (filter (\<lambda>b. status b \<noteq> ''CANCELED'') bookings) \<and>
     (reportRoomFilter = ''ALL'' \<longrightarrow>
        (\<forall>b \<in> set bookings. status b \<noteq> ''CANCELED'' \<longrightarrow> room b \<in> id' ` set (rooms tenantRooms)))
     \<longrightarrow> fillRate ms \<le> 100)"
proof -
  from rep ms obtain mo where
    eq: "ms = monthStat bookings reportRoomFilter tenantRooms mo" and mo: "1 \<le> snd mo" "snd mo \<le> 12"
    by (rule monthStat_of_reportData)
  define mbs where "mbs = monthBookings bookings reportRoomFilter mo"
  define occ where "occ = sum_list (map (occupancyDays mo) mbs)"
  define dim where "dim = getDaysInMonth (fst mo) (snd mo)"
  define n where "n = (if reportRoomFilter = ''ALL'' then int (length (rooms tenantRooms)) else 1)"
  define q :: rat where "q = of_int occ / of_int (dim * n)"
  have rate: "fillRate ms = q * 100"
    unfolding eq q_def occ_def mbs_def dim_def n_def by (rule fillRate_monthStat[OF mo])
  have dim: "28 \<le> dim" unfolding dim_def by (rule getDaysInMonth_ge_28)
  have n: "1 \<le> n" using rooms_not_empty[of tenantRooms] by (simp add: n_def)
  have pos: "0 < dim * n" using dim n by (simp add: zero_less_mult_iff)
  then have ratpos: "(0::rat) < of_int (dim * n)" by (simp only: of_int_0_less_iff)
  have occ0: "0 \<le> occ"
    unfolding occ_def by (rule sum_list_nonneg) (auto simp: occupancyDays_nonneg)
  then have "(0::rat) \<le> of_int occ" by (simp only: of_int_0_le_iff)
  with ratpos have "0 \<le> q" unfolding q_def by (simp only: divide_nonneg_pos)
  then have lower: "0 \<le> fillRate ms" unfolding rate by simp
  have upper: "fillRate ms \<le> 100"
    if v: "\<forall>b \<in> set bookings. validDate (checkIn b) \<and> validDate (checkOut b)"
      and nd: "noDoubleBooking (filter (\<lambda>b. status b \<noteq> ''CANCELED'') bookings)"
      and known: "reportRoomFilter = ''ALL'' \<longrightarrow>
        (\<forall>b \<in> set bookings. status b \<noteq> ''CANCELED'' \<longrightarrow> room b \<in> id' ` set (rooms tenantRooms))"
  proof -
    define R where
      "R = (if reportRoomFilter = ''ALL'' then id' ` set (rooms tenantRooms) else {reportRoomFilter})"
    have finR: "finite R" by (simp add: R_def)
    have cardR: "int (card R) \<le> n"
      using card_image_le[of "set (rooms tenantRooms)" id'] card_length[of "rooms tenantRooms"]
      by (simp add: R_def n_def)
    have mbs: "mbs = filter (\<lambda>b. checkIn b \<le> endOfMonth mo \<and> startOfMonth mo < checkOut b \<and>
          (reportRoomFilter = ''ALL'' \<or> room b = reportRoomFilter))
        (filter (\<lambda>b. status b \<noteq> ''CANCELED'') bookings)"
      by (simp add: mbs_def monthBookings_def Let_def)
    have nd': "noDoubleBooking mbs"
      unfolding mbs using nd by (rule noDoubleBooking_filter)
    have inR: "\<forall>b \<in> set mbs. validDate (checkIn b) \<and> validDate (checkOut b) \<and> room b \<in> R"
      using v known by (auto simp: mbs_def R_def monthBookings_def Let_def)
    have "occ \<le> int (card R) * (dim - 1)"
      unfolding occ_def dim_def by (rule occupancy_bound[OF mo finR inR nd'])
    also have "\<dots> \<le> n * dim"
      using cardR dim n by (intro mult_mono) simp_all
    finally have "occ \<le> dim * n" by (simp add: mult.commute)
    then have "(of_int occ :: rat) \<le> of_int (dim * n)" by (simp only: of_int_le_iff)
    with ratpos have "q \<le> 1"
      unfolding q_def by (simp only: divide_le_eq_1_pos)
    then show ?thesis unfolding rate by simp
  qed
  from lower upper show ?thesis by blast
qed

lemma march_2026_months: "[monthIndex (2026,3,1)..monthIndex (2026,3,2)] = [24314]"
  by (simp add: monthIndex_def upto_rec1)

lemmas report_eval = reportData_def eachMonthOfInterval_def filtered_def roomStat_def
  rooms_def monthOfIndex_def monthStat_def monthBookings_def monthRevenue_def
  monthOccupancy_def occupancyDays_def mkBooking_def createdDate_def isOccupied_def
  occupiedDaysLoop_step occupiedDaysLoop_stop addDays1_def cal_eval Let_def

lemma back_to_back_example:
  "reportData DateFnsV3
     [mkBooking ''A1'' (2026,3,1) (2026,3,11) 1000 (2026,2,20) ''UPCOMING'',
      mkBooking ''A1'' (2026,3,11) (2026,3,21) 1000 (2026,2,21) ''UPCOMING'']
     (2026,3,1) (2026,3,2) ''A1'' stay [\<lparr>id' = ''A1'', name' = ''A1''\<rparr>] =
   Inr \<lparr>roomStats = [\<lparr>roomId = ''A1'', RoomStat.totalNights = 10,
               RoomStat.totalRevenue = 1000, RoomStat.occupancyRate = 100\<rparr>],
        totalRevenue = 1000, totalNights = 10, bookingCount = 1,
        monthlyStats = [\<lparr>month = (2026,3), revenue = 2000, fillRate = 2000 / 31\<rparr>]\<rparr>"
  by (simp add: march_2026_months report_eval)

theorem fill_rate_range_witness:
  "validDate (2026,3,1) \<and> validDate (2026,3,2) \<and> validDate (2026,3,11) \<and>
   validDate (2026,3,21) \<and>
   noDoubleBooking
     [mkBooking ''A1'' (2026,3,1) (2026,3,11) 1000 (2026,2,20) ''UPCOMING'',
      mkBooking ''A1'' (2026,3,11) (2026,3,21) 1000 (2026,2,21) ''UPCOMING''] \<and>
   0 \<le> fillRate \<lparr>month = (2026,3), revenue = 2000, fillRate = 2000 / 31\<rparr> \<and>
   fillRate \<lparr>month = (2026,3), revenue = 2000, fillRate = 2000 / 31\<rparr> \<le> 100"
proof -
  have v: "validDate (2026,3,1)" "validDate (2026,3,11)" "validDate (2026,3,21)"
    and w: "validDate (2026,3,2)"
    by (simp_all add: validDate_def getDaysInMonth_def)
  have nd: "noDoubleBooking
     [mkBooking ''A1'' (2026,3,1) (2026,3,11) 1000 (2026,2,20) ''UPCOMING'',
      mkBooking ''A1'' (2026,3,11) (2026,3,21) 1000 (2026,2,21) ''UPCOMING'']"
    by (simp add: mkBooking_def)
  have nd': "noDoubleBooking (filter (\<lambda>b. status b \<noteq> ''CANCELED'')
     [mkBooking ''A1'' (2026,3,1) (2026,3,11) 1000 (2026,2,20) ''UPCOMING'',
      mkBooking ''A1'' (2026,3,11) (2026,3,21) 1000 (2026,2,21) ''UPCOMING''])"
    by (simp add: mkBooking_def)
  have vb: "\<forall>b \<in> set
     [mkBooking ''A1'' (2026,3,1) (2026,3,11) 1000 (2026,2,20) ''UPCOMING'',
      mkBooking ''A1'' (2026,3,11) (2026,3,21) 1000 (2026,2,21) ''UPCOMING''].
      validDate (checkIn b) \<and> validDate (checkOut b)"
    using v by (simp add: mkBooking_def)
  have m: "\<lparr>month = (2026,3), revenue = 2000, fillRate = 2000 / 31\<rparr> \<in> set (monthlyStats
      \<lparr>roomStats = [\<lparr>roomId = ''A1'', RoomStat.totalNights = 10,
               RoomStat.totalRevenue = 1000, RoomStat.occupancyRate = 100\<rparr>],
        totalRevenue = 1000, totalNights = 10, bookingCount = 1,
        monthlyStats = [\<lparr>month = (2026,3), revenue = 2000, fillRate = 2000 / 31\<rparr>]\<rparr>)"
    by simp
  from fill_rate_range[OF v(1) w back_to_back_example m] vb nd'
  have "0 \<le> fillRate \<lparr>month = (2026,3), revenue = 2000, fillRate = 2000 / 31\<rparr> \<and>
    fillRate \<lparr>month = (2026,3), revenue = 2000, fillRate = 2000 / 31\<rparr> \<le> 100"
    by blast
  with v w nd show ?thesis by blast
qed

text \<open>
  The claim as stated fails on overlapping stays: each booking adds its own clamped
  nights, so two overlapping bookings of room A1 in March 2026 give a fill rate of
  4500/31, above 100.
\<close>

theorem fill_rate_range_counterexample:
  "reportData DateFnsV3
     [mkBooking ''A1'' (2026,3,1) (2026,4,1) 3100 (2026,2,20) ''UPCOMING'',
      mkBooking ''A1'' (2026,3,5) (2026,3,20) 1500 (2026,2,21) ''UPCOMING'']
     (2026,3,1) (2026,3,2) ''A1'' stay [\<lparr>id' = ''A1'', name' = ''A1''\<rparr>] =
   Inr \<lparr>roomStats = [\<lparr>roomId = ''A1'', RoomStat.totalNights = 31,
               RoomStat.totalRevenue = 3100, RoomStat.occupancyRate = 100\<rparr>],
        totalRevenue = 3100, totalNights = 31, bookingCount = 1,
        monthlyStats = [\<lparr>month = (2026,3), revenue = 4600, fillRate = 4500 / 31\<rparr>]\<rparr> \<and>
   (100 :: rat) < 4500 / 31"
  by (simp add: march_2026_months report_eval)

end
